theory Spec2Isabelle
  imports Main "HOL-Library.AList" "HOL-Library.Sublist"
begin

section \<open>Data model\<close>

text \<open>
  The two scripts \<^verbatim>\<open>check_config.js\<close> (two revisions of every environment) and
  \<^verbatim>\<open>compare_envs.js\<close> (environments pt and prod at one revision) work on the objects
  returned by the property-file parser. A JavaScript object is modelled as an association
  list in insertion order: \<^verbatim>\<open>Object.keys(o)\<close> is \<open>map fst o\<close>, \<^verbatim>\<open>o[k]\<close> is \<open>map_of o k\<close>
  with \<open>None\<close> for \<^verbatim>\<open>undefined\<close>, \<^verbatim>\<open>o[k] = v\<close> is \<open>AList.update k v o\<close> and
  \<^verbatim>\<open>delete o[k]\<close> is \<open>AList.delete k o\<close>. The values of a parsed property file are
  strings, and a key that is not in the file reads as \<^verbatim>\<open>undefined\<close>. A file that does not
  exist at a revision is \<^verbatim>\<open>null\<close>, modelled as \<open>None\<close>; this is different from the empty
  object \<open>Some []\<close>. JavaScript lists integer-like keys before the others; that reordering
  is not modelled, and no statement below depends on the order of keys. Objects are taken
  as plain finite maps: the properties that every JavaScript object inherits (such as
  \<^verbatim>\<open>toString\<close>) and the special name \<^verbatim>\<open>__proto__\<close> are not modelled.
\<close>

type_synonym 'v object = "(string \<times> 'v) list"

type_synonym properties = "string object"

text \<open>\<^verbatim>\<open>Object.keys(obj || {})\<close>\<close>

definition keys_or_empty :: "'v object option \<Rightarrow> string list" where
  "keys_or_empty obj = (case obj of None \<Rightarrow> [] | Some ob \<Rightarrow> map fst ob)"

text \<open>\<^verbatim>\<open>obj ? obj[key] : undefined\<close>\<close>

definition value_of :: "'v object option \<Rightarrow> string \<Rightarrow> 'v option" where
  "value_of obj key = (case obj of None \<Rightarrow> None | Some ob \<Rightarrow> map_of ob key)"

text \<open>
  \<^verbatim>\<open>new Set([...])\<close>: the elements are added one by one, an element that is already
  a member is not added again, and iteration follows insertion order.
\<close>

definition set_add :: "'a list \<Rightarrow> 'a \<Rightarrow> 'a list" where
  "set_add s x = (if x \<in> set s then s else s @ [x])"

definition new_Set :: "'a list \<Rightarrow> 'a list" where
  "new_Set xs = foldl set_add [] xs"

section \<open>check\_config.js: computeDiffs\<close>

record diff =
  d_key :: string
  d_old :: "string option"
  d_new :: "string option"
  d_type :: string

definition diff_visit :: "properties option \<Rightarrow> properties option \<Rightarrow> diff list \<Rightarrow> string \<Rightarrow> diff list" where
  "diff_visit oldObj newObj diffs key =
     (let oldVal = value_of oldObj key;
          newVal = value_of newObj key
      in if oldVal \<noteq> newVal
         then diffs @ [\<lparr>d_key = key, d_old = oldVal, d_new = newVal,
                        d_type = (if oldVal = None then ''added''
                                  else if newVal = None then ''removed''
                                  else ''changed'')\<rparr>]
         else diffs)"

definition computeDiffs :: "properties option \<Rightarrow> properties option \<Rightarrow> diff list" where
  "computeDiffs oldObj newObj =
     (let allKeys = new_Set (keys_or_empty oldObj @ keys_or_empty newObj)
      in foldl (diff_visit oldObj newObj) [] allKeys)"

section \<open>compare\_envs.js: normalizeValue and computeDiffs\<close>

text \<open>
  \<^verbatim>\<open>s.replace(/pat/g, '')\<close> for a pattern without regular-expression operators: the
  string is scanned from the left, and when the pattern matches at the current position
  the match is dropped and the scan goes on behind it, otherwise the current character
  is kept. An empty pattern changes nothing.
\<close>

function replace_global :: "string \<Rightarrow> string \<Rightarrow> string" where
  "replace_global [] s = s"
| "replace_global (p # ps) [] = []"
| "replace_global (p # ps) (c # cs) =
     (if prefix (p # ps) (c # cs)
      then replace_global (p # ps) (drop (length ps) cs)
      else c # replace_global (p # ps) cs)"
  by pat_completeness auto
termination
  by (relation "measure (\<lambda>(pat, s). length s)") auto

definition patterns_of :: "bool \<Rightarrow> string list" where
  "patterns_of isPt =
     (if isPt then [''pt-'', ''contents-pt''] else [''prod-'', ''prd-'', ''contents''])"

definition normalizeValue :: "string option \<Rightarrow> bool \<Rightarrow> string" where
  "normalizeValue val isPt =
     (case val of
        None \<Rightarrow> []
      | Some v \<Rightarrow>
          if v = [] then []
          else foldl (\<lambda>normalized pattern. replace_global pattern normalized) v
                 (patterns_of isPt))"

record env_diff =
  e_key :: string
  e_pt :: "string option"
  e_prod :: "string option"
  e_type :: string

definition shouldIgnore :: "bool \<Rightarrow> string option \<Rightarrow> string option \<Rightarrow> bool" where
  "shouldIgnore applyFilter ptVal prodVal =
     (if applyFilter
      then (let normalizedPtVal = normalizeValue ptVal True;
                normalizedProdVal = normalizeValue prodVal False
            in normalizedPtVal \<noteq> [] \<and> normalizedProdVal \<noteq> [] \<and>
               normalizedPtVal = normalizedProdVal)
      else False)"

definition env_visit ::
  "properties option \<Rightarrow> properties option \<Rightarrow> bool \<Rightarrow> env_diff list \<Rightarrow> string \<Rightarrow> env_diff list" where
  "env_visit ptObj prodObj applyFilter diffs key =
     (let ptVal = value_of ptObj key;
          prodVal = value_of prodObj key
      in if ptVal \<noteq> prodVal
         then (if \<not> shouldIgnore applyFilter ptVal prodVal
               then diffs @ [\<lparr>e_key = key, e_pt = ptVal, e_prod = prodVal,
                              e_type = (if ptVal = None then ''added_in_prod''
                                        else if prodVal = None then ''added_in_pt''
                                        else ''changed'')\<rparr>]
               else diffs)
         else diffs)"

definition computeDiffs_env ::
  "properties option \<Rightarrow> properties option \<Rightarrow> bool \<Rightarrow> env_diff list" where
  "computeDiffs_env ptObj prodObj applyFilter =
     (let allKeys = new_Set (keys_or_empty ptObj @ keys_or_empty prodObj)
      in foldl (env_visit ptObj prodObj applyFilter) [] allKeys)"

section \<open>The repository, the file system and the process\<close>

text \<open>
  Both scripts reach the configuration repository through \<^verbatim>\<open>simple-git\<close>, parse file
  contents with \<^verbatim>\<open>properties-parser\<close> and handle paths with the \<^verbatim>\<open>path\<close> module of Node.
  These are not part of the repository; a \<open>backend\<close> holds what they answer. A rejected
  promise is \<open>Inl\<close> of the message of its error. The parser is taken to return an
  object for every text. Strings are lists of 8-bit characters.

  Both scripts open the handle \<^verbatim>\<open>simpleGit(repoPath)\<close> when they are loaded, before
  \<^verbatim>\<open>main\<close> runs, and \<^verbatim>\<open>simple-git\<close> throws there when \<^verbatim>\<open>repoPath\<close> is not an existing
  directory: such a run ends with status 1 and an error on the error stream, without any
  call of \<^verbatim>\<open>main\<close>. The model describes the runs in which the handle opens. In
  \<open>main_env\<close> the branch of \<^verbatim>\<open>checkRepoPath\<close> for a path that \<^verbatim>\<open>fs.access\<close> rejects is
  kept as the code has it; for a missing directory the script does not reach it.
\<close>

record backend =
  repoPath :: string
  fs_access :: "string \<Rightarrow> bool"
  git_tags :: "string + string list"
  git_rev_list :: "string + string"
  git_ls_tree :: "string \<Rightarrow> string \<Rightarrow> string + string"
  git_show :: "string \<Rightarrow> string + string"
  properties_parse :: "string \<Rightarrow> properties"
  path_join :: "string \<Rightarrow> string \<Rightarrow> string"
  path_basename :: "string \<Rightarrow> string"
  path_dirname :: "string \<Rightarrow> string"
  path_relative :: "string \<Rightarrow> string \<Rightarrow> string"

text \<open>The requests made to the file system and to git, in the order of a run.\<close>

datatype call =
    FsAccess string
  | GitTags
  | GitRevList
  | GitLsTree string string
  | GitShow string

text \<open>
  The errors thrown inside \<^verbatim>\<open>main\<close>. Their messages are Thai text with the values below
  put in; only the values are kept.
\<close>

datatype error =
    GitFailure string
  | InvalidRef "string list"
  | InvalidPath string string
  | ListFailure string string string
  | FetchFailure string string string

text \<open>
  An asynchronous computation is its outcome, an error or a value, together with the
  calls it made. \<open>io_bind\<close> is \<^verbatim>\<open>await\<close> followed by the rest of the function: an error
  skips the rest.
\<close>

type_synonym 'a io = "(error + 'a) \<times> call list"

definition io_return :: "'a \<Rightarrow> 'a io" where
  "io_return x = (Inr x, [])"

definition io_throw :: "error \<Rightarrow> 'a io" where
  "io_throw e = (Inl e, [])"

definition io_bind :: "'a io \<Rightarrow> ('a \<Rightarrow> 'b io) \<Rightarrow> 'b io" where
  "io_bind m f =
     (case fst m of
        Inl e \<Rightarrow> (Inl e, snd m)
      | Inr x \<Rightarrow> (fst (f x), snd m @ snd (f x)))"

text \<open>\<^verbatim>\<open>for (const x of xs) { ... await ... }\<close> over a state that the body updates.\<close>

fun io_foldl :: "('s \<Rightarrow> 'a \<Rightarrow> 's io) \<Rightarrow> 's \<Rightarrow> 'a list \<Rightarrow> 's io" where
  "io_foldl f s [] = (Inr s, [])"
| "io_foldl f s (x # xs) =
     (case fst (f s x) of
        Inl e \<Rightarrow> (Inl e, snd (f s x))
      | Inr s' \<Rightarrow> (fst (io_foldl f s' xs), snd (f s x) @ snd (io_foldl f s' xs)))"

text \<open>String methods of JavaScript: \<^verbatim>\<open>s.split(c)\<close>, \<^verbatim>\<open>s.includes(sub)\<close>, \<^verbatim>\<open>s.trim()\<close>.\<close>

fun split_on :: "char \<Rightarrow> string \<Rightarrow> string list" where
  "split_on c [] = [[]]"
| "split_on c (x # xs) =
     (if x = c then [] # split_on c xs
      else (case split_on c xs of
              [] \<Rightarrow> [[x]]
            | w # ws \<Rightarrow> (x # w) # ws))"

definition str_includes :: "string \<Rightarrow> string \<Rightarrow> bool" where
  "str_includes s sub = list_ex (\<lambda>j. prefix sub (drop j s)) [0..<Suc (length s)]"

definition white_space :: "char \<Rightarrow> bool" where
  "white_space c =
     (c \<in> set [CHR 0x09, CHR 0x0A, CHR 0x0B, CHR 0x0C, CHR 0x0D, CHR 0x20, CHR 0xA0])"

definition trim :: "string \<Rightarrow> string" where
  "trim s = rev (dropWhile white_space (rev (dropWhile white_space s)))"

text \<open>
  \<^verbatim>\<open>getFileContent\<close>, the same text in both scripts: the parsed content of a file at a
  revision, \<^verbatim>\<open>null\<close> when git reports that the path exists on disk but not in the
  revision, and an error for every other failure.
\<close>

definition getFileContent :: "backend \<Rightarrow> string \<Rightarrow> string \<Rightarrow> properties option io" where
  "getFileContent be tag filePath =
     (case git_show be (tag @ '':'' @ filePath) of
        Inr content \<Rightarrow> (Inr (Some (properties_parse be content)), [GitShow (tag @ '':'' @ filePath)])
      | Inl message \<Rightarrow>
          if str_includes message ''exists on disk, but not in''
          then (Inr None, [GitShow (tag @ '':'' @ filePath)])
          else (Inl (FetchFailure filePath tag message), [GitShow (tag @ '':'' @ filePath)]))"

section \<open>check\_config.js: main\<close>

definition listFiles :: "backend \<Rightarrow> string \<Rightarrow> string \<Rightarrow> string list io" where
  "listFiles be tag dir =
     (case git_ls_tree be tag dir of
        Inr output \<Rightarrow>
          (Inr (filter (\<lambda>f. trim f \<noteq> []) (split_on (CHR 0x0A) output)), [GitLsTree tag dir])
      | Inl message \<Rightarrow>
          if str_includes message ''not a valid pathspec''
          then (Inl (InvalidPath dir tag), [GitLsTree tag dir])
          else (Inl (ListFailure dir tag message), [GitLsTree tag dir]))"

record file_diff =
  f_old :: "properties option"
  f_new :: "properties option"
  f_diffs :: "diff list"

type_synonym env_report = "file_diff object"

text \<open>What a run leaves behind: the exit status, the values printed as JSON on standard
  output, the lines on the error stream, and the calls made.\<close>

datatype diagnostic =
    Usage
  | RepoPathValid string
  | RepoPathInvalid string
  | ErrorMessage error
  | SkippedDiff string "string option" "string option"
  | FilteredKeys "(string \<times> string option \<times> string option \<times> string) list"
  | NoFilteredKeys
  | TotalDiffs nat

record 'r run =
  exit_code :: nat
  stdout :: "'r list"
  stderr :: "diagnostic list"
  calls :: "call list"

text \<open>The environments: the first segment below \<^verbatim>\<open>config\<close> of the directory of each
  listed path, without the empty name and without \<^verbatim>\<open>.\<close>, each one once.\<close>

definition envs_of :: "backend \<Rightarrow> string list \<Rightarrow> string list" where
  "envs_of be allFiles =
     new_Set (filter (\<lambda>p. p \<noteq> [] \<and> p \<noteq> ''.'')
       (map (\<lambda>p. let relative = path_relative be ''config'' (path_dirname be p)
                  in (case split_on CHR ''/'' relative of [] \<Rightarrow> [] | seg # _ \<Rightarrow> seg))
            allFiles))"

text \<open>The body of the loop over the files of one environment.\<close>

definition file_step :: "backend \<Rightarrow> string \<Rightarrow> string \<Rightarrow> env_report \<Rightarrow> string \<Rightarrow> env_report io" where
  "file_step be oldTag newTag report fullPath =
     (let fileName = path_basename be fullPath
      in io_bind (getFileContent be oldTag fullPath) (\<lambda>oldContent.
         io_bind (getFileContent be newTag fullPath) (\<lambda>newContent.
           let diffs = computeDiffs oldContent newContent
           in io_return
                (if diffs \<noteq> [] \<or> oldContent = None \<or> newContent = None
                 then AList.update fileName
                        \<lparr>f_old = oldContent, f_new = newContent, f_diffs = diffs\<rparr> report
                 else report))))"

text \<open>The body of the loop over the environments.\<close>

definition env_step :: "backend \<Rightarrow> string \<Rightarrow> string \<Rightarrow> env_report object \<Rightarrow> string \<Rightarrow> env_report object io" where
  "env_step be oldTag newTag envs env =
     (let envPath = ''config'' @ ''/'' @ env
      in io_bind (listFiles be newTag envPath) (\<lambda>listed.
           let files = filter (\<lambda>f. suffix ''.properties'' f) listed
           in io_bind (io_foldl (file_step be oldTag newTag) [] files) (\<lambda>report.
                io_return (AList.update env report envs))))"

text \<open>The last loop: an environment without a retained file is deleted.\<close>

definition prune_envs :: "env_report object \<Rightarrow> env_report object" where
  "prune_envs envs =
     foldl (\<lambda>res env. (case map_of res env of
                          None \<Rightarrow> res
                        | Some report \<Rightarrow> if map fst report = [] then AList.delete env res else res))
       envs (map fst envs)"

text \<open>The \<^verbatim>\<open>try\<close> block of \<^verbatim>\<open>main\<close>; its value is \<^verbatim>\<open>result.envs\<close> as printed. A failure
  of the first listing is caught inside and ends the run with the empty result.\<close>

definition main_body :: "backend \<Rightarrow> string \<Rightarrow> string \<Rightarrow> env_report object io" where
  "main_body be oldTag newTag =
     io_bind (map_sum GitFailure id (git_tags be), [GitTags]) (\<lambda>tags.
     io_bind (map_sum GitFailure id (git_rev_list be), [GitRevList]) (\<lambda>commits.
       let validRefs = new_Set (tags @ split_on (CHR 0x0A) commits)
       in if oldTag \<notin> set validRefs \<or> newTag \<notin> set validRefs
          then io_throw (InvalidRef [oldTag, newTag])
          else (case fst (listFiles be newTag ''config'') of
                  Inl err \<Rightarrow> (Inr [], snd (listFiles be newTag ''config''))
                | Inr _ \<Rightarrow>
                    io_bind (listFiles be newTag ''config'') (\<lambda>allFiles.
                    io_bind (io_foldl (env_step be oldTag newTag) [] (envs_of be allFiles)) (\<lambda>envs.
                      io_return (prune_envs envs))))))"

definition main :: "backend \<Rightarrow> string \<Rightarrow> string \<Rightarrow> env_report object run" where
  "main be oldTag newTag =
     (case fst (main_body be oldTag newTag) of
        Inr envs \<Rightarrow>
          \<lparr>exit_code = 0, stdout = [envs], stderr = [], calls = snd (main_body be oldTag newTag)\<rparr>
      | Inl err \<Rightarrow>
          \<lparr>exit_code = 1, stdout = [], stderr = [ErrorMessage err],
           calls = snd (main_body be oldTag newTag)\<rparr>)"

text \<open>The script: \<open>argv\<close> are the command-line arguments behind the script name. A
  missing or empty argument is a usage error.\<close>

definition check_config :: "backend \<Rightarrow> string list \<Rightarrow> env_report object run" where
  "check_config be argv =
     (case argv of
        oldTag # newTag # _ \<Rightarrow>
          if oldTag = [] \<or> newTag = []
          then \<lparr>exit_code = 1, stdout = [], stderr = [Usage], calls = []\<rparr>
          else main be oldTag newTag
      | _ \<Rightarrow> \<lparr>exit_code = 1, stdout = [], stderr = [Usage], calls = []\<rparr>)"

section \<open>compare\_envs.js: main\<close>

definition listFiles_env :: "backend \<Rightarrow> string \<Rightarrow> string \<Rightarrow> string list io" where
  "listFiles_env be tag dir =
     (case git_ls_tree be tag dir of
        Inr output \<Rightarrow>
          (Inr (filter (\<lambda>f. trim f \<noteq> []) (split_on (CHR 0x0A) output)), [GitLsTree tag dir])
      | Inl message \<Rightarrow> (Inl (ListFailure dir tag message), [GitLsTree tag dir]))"

text \<open>The lines that \<^verbatim>\<open>computeDiffs\<close> of this script writes to the error stream: one for
  each suppressed key, then the list of the suppressed keys or a line saying that there
  are none, when the filter is on.\<close>

definition computeDiffs_env_stderr ::
  "properties option \<Rightarrow> properties option \<Rightarrow> bool \<Rightarrow> diagnostic list" where
  "computeDiffs_env_stderr ptObj prodObj applyFilter =
     (let allKeys = new_Set (keys_or_empty ptObj @ keys_or_empty prodObj);
          ignored = filter (\<lambda>key. value_of ptObj key \<noteq> value_of prodObj key \<and>
                       shouldIgnore applyFilter (value_of ptObj key) (value_of prodObj key)) allKeys
      in map (\<lambda>key. SkippedDiff key (value_of ptObj key) (value_of prodObj key)) ignored
         @ (if applyFilter \<and> ignored \<noteq> []
            then [FilteredKeys (map (\<lambda>key. (key, value_of ptObj key, value_of prodObj key,
                                         normalizeValue (value_of ptObj key) True)) ignored)]
            else if applyFilter then [NoFilteredKeys] else []))"

record env_file_diff =
  x_pt :: "properties option"
  x_prod :: "properties option"
  x_diffs :: "env_diff list"

text \<open>\<^verbatim>\<open>result.envs[env]\<close> maps a file name to the content fetched for it, which may be
  \<^verbatim>\<open>null\<close>.\<close>

type_synonym env_contents = "properties option object"

definition content_step :: "backend \<Rightarrow> string \<Rightarrow> env_contents \<Rightarrow> string \<Rightarrow> env_contents io" where
  "content_step be tag contents fullPath =
     (let fileName = path_basename be fullPath
      in io_bind (getFileContent be tag fullPath) (\<lambda>content.
           io_return (AList.update fileName content contents)))"

definition load_env :: "backend \<Rightarrow> string \<Rightarrow> string \<Rightarrow> env_contents io" where
  "load_env be tag env =
     (let envPath = ''config'' @ ''/'' @ env
      in io_bind (listFiles_env be tag envPath) (\<lambda>listed.
           let files = filter (\<lambda>f. suffix ''.properties'' f) listed
           in io_foldl (content_step be tag) [] files))"

text \<open>\<^verbatim>\<open>contents[fileName] || null\<close>\<close>

definition or_null :: "'a option option \<Rightarrow> 'a option" where
  "or_null x = (case x of Some (Some c) \<Rightarrow> Some c | _ \<Rightarrow> None)"

text \<open>The body of the loop over the union of the file names.\<close>

definition compare_step ::
  "string \<Rightarrow> env_contents \<Rightarrow> env_contents \<Rightarrow> env_file_diff object \<Rightarrow> string \<Rightarrow> env_file_diff object" where
  "compare_step filter_arg pt_files prod_files result_diffs fileName =
     (let ptContent = or_null (map_of pt_files fileName);
          prodContent = or_null (map_of prod_files fileName);
          diffs = computeDiffs_env ptContent prodContent (filter_arg = ''true'')
      in if diffs \<noteq> [] \<or> ptContent = None \<or> prodContent = None
         then AList.update fileName
                \<lparr>x_pt = ptContent, x_prod = prodContent, x_diffs = diffs\<rparr> result_diffs
         else result_diffs)"

text \<open>The part of the \<^verbatim>\<open>try\<close> block of \<^verbatim>\<open>main\<close> that can fail: the check of the
  revision and the two loops that fill \<^verbatim>\<open>result.envs.pt\<close> and \<^verbatim>\<open>result.envs.prod\<close>.\<close>

definition env_body :: "backend \<Rightarrow> string \<Rightarrow> (env_contents \<times> env_contents) io" where
  "env_body be tag =
     io_bind (map_sum GitFailure id (git_tags be), [GitTags]) (\<lambda>tags.
     io_bind (map_sum GitFailure id (git_rev_list be), [GitRevList]) (\<lambda>commits.
       let validRefs = new_Set (tags @ split_on (CHR 0x0A) commits)
       in if tag \<notin> set validRefs
          then io_throw (InvalidRef [tag])
          else io_bind (load_env be tag ''pt'') (\<lambda>pt.
               io_bind (load_env be tag ''prod'') (\<lambda>prod.
                 io_return (pt, prod)))))"

text \<open>\<^verbatim>\<open>main\<close>, with \<^verbatim>\<open>checkRepoPath\<close> in front: the value printed is \<^verbatim>\<open>result.diffs\<close>.\<close>

definition main_env :: "backend \<Rightarrow> string \<Rightarrow> string \<Rightarrow> env_file_diff object run" where
  "main_env be tag filter_arg =
     (if \<not> fs_access be (repoPath be)
      then \<lparr>exit_code = 1, stdout = [], stderr = [RepoPathInvalid (repoPath be)],
            calls = [FsAccess (repoPath be)]\<rparr>
      else if \<not> fs_access be (path_join be (repoPath be) ''.git'')
      then \<lparr>exit_code = 1, stdout = [], stderr = [RepoPathInvalid (repoPath be)],
            calls = [FsAccess (repoPath be), FsAccess (path_join be (repoPath be) ''.git'')]\<rparr>
      else
        (case fst (env_body be tag) of
           Inl err \<Rightarrow>
             \<lparr>exit_code = 1, stdout = [],
              stderr = [RepoPathValid (repoPath be), ErrorMessage err],
              calls = [FsAccess (repoPath be), FsAccess (path_join be (repoPath be) ''.git'')]
                      @ snd (env_body be tag)\<rparr>
         | Inr (pt_files, prod_files) \<Rightarrow>
             (let allFiles = new_Set (map fst pt_files @ map fst prod_files);
                  result_diffs = foldl (compare_step filter_arg pt_files prod_files) [] allFiles
              in \<lparr>exit_code = 0, stdout = [result_diffs],
                   stderr = [RepoPathValid (repoPath be)]
                     @ concat (map (\<lambda>fileName.
                          computeDiffs_env_stderr (or_null (map_of pt_files fileName))
                            (or_null (map_of prod_files fileName)) (filter_arg = ''true'')) allFiles)
                     @ [TotalDiffs (sum_list (map (\<lambda>file. length (x_diffs (snd file))) result_diffs))],
                   calls = [FsAccess (repoPath be), FsAccess (path_join be (repoPath be) ''.git'')]
                           @ snd (env_body be tag)\<rparr>)))"

text \<open>The script: the second argument is optional and defaults to \<^verbatim>\<open>true\<close>.\<close>

definition compare_envs :: "backend \<Rightarrow> string list \<Rightarrow> env_file_diff object run" where
  "compare_envs be argv =
     (case argv of
        [] \<Rightarrow> \<lparr>exit_code = 1, stdout = [], stderr = [Usage], calls = []\<rparr>
      | tag # rest \<Rightarrow>
          if tag = []
          then \<lparr>exit_code = 1, stdout = [], stderr = [Usage], calls = []\<rparr>
          else main_env be tag (case rest of [] \<Rightarrow> ''true'' | filter_arg # _ \<Rightarrow> filter_arg))"

section \<open>The normalizer as the specification words it\<close>

text \<open>
  The specification describes normalization as the deletion of every occurrence of a
  substring. The following definition says this without a scan: the pattern occurs at
  position \<open>j\<close> of \<open>s\<close> when the characters of \<open>s\<close> from \<open>j\<close> on start with the pattern,
  position \<open>i\<close> lies inside an occurrence when an occurrence starts at most
  \<open>length pat - 1\<close> positions before it, and the result keeps the characters of \<open>s\<close> that
  lie inside no occurrence. It is compared with \<open>replace_global\<close>, the scan of the code,
  for patterns of which no proper non-empty suffix is a prefix, so that two occurrences
  never overlap; the five patterns of \<open>patterns_of\<close> are such.
\<close>

definition occurs_at :: "string \<Rightarrow> string \<Rightarrow> nat \<Rightarrow> bool" where
  "occurs_at pat s j = (take (length pat) (drop j s) = pat)"

definition inside_occurrence :: "string \<Rightarrow> string \<Rightarrow> nat \<Rightarrow> bool" where
  "inside_occurrence pat s i =
     list_ex (\<lambda>j. i < j + length pat \<and> occurs_at pat s j) [0..<Suc i]"

definition spec_delete_occurrences :: "string \<Rightarrow> string \<Rightarrow> string" where
  "spec_delete_occurrences pat s =
     map (\<lambda>i. s ! i) (filter (\<lambda>i. \<not> inside_occurrence pat s i) [0..<length s])"

definition unbordered :: "string \<Rightarrow> bool" where
  "unbordered pat =
     (pat \<noteq> [] \<and> list_all (\<lambda>k. take (length pat - k) pat \<noteq> drop k pat) [1..<length pat])"

section \<open>Observations of a run\<close>

text \<open>
  The statements about the two \<^verbatim>\<open>main\<close> functions use the following notions. A call is a
  listing or a fetch when it is \<^verbatim>\<open>git ls-tree\<close> or \<^verbatim>\<open>git show\<close>; \<open>lists_at tag\<close> holds of
  every call that is not a listing at another revision. \<open>report_lookup\<close> reads
  \<^verbatim>\<open>result.envs[env][fileName]\<close>, with \<open>None\<close> when the environment or the file name is
  missing. For a run in which every fetch succeeds, \<open>fetched\<close> is the content that
  \<^verbatim>\<open>getFileContent\<close> returns, \<open>file_diff_of\<close> the entry that the loop body builds for a
  path, \<open>retained\<close> the condition under which it stores the entry, \<open>env_files\<close> the
  \<^verbatim>\<open>.properties\<close> paths listed for an environment, \<open>env_report_of\<close> the object that the inner
  loop leaves for it, and \<open>all_envs\<close> the object that the outer loop leaves before pruning.
\<close>

definition listing_or_fetch :: "call \<Rightarrow> bool" where
  "listing_or_fetch c = (case c of GitLsTree tag dir \<Rightarrow> True | GitShow ref \<Rightarrow> True | _ \<Rightarrow> False)"

definition lists_at :: "string \<Rightarrow> call \<Rightarrow> bool" where
  "lists_at newTag c = (case c of GitLsTree tag dir \<Rightarrow> tag = newTag | _ \<Rightarrow> True)"

definition report_lookup :: "'v object object \<Rightarrow> string \<Rightarrow> string \<Rightarrow> 'v option" where
  "report_lookup envs env fileName =
     (case map_of envs env of None \<Rightarrow> None | Some report \<Rightarrow> map_of report fileName)"

definition fetched :: "backend \<Rightarrow> string \<Rightarrow> string \<Rightarrow> properties option" where
  "fetched be tag filePath =
     (case fst (getFileContent be tag filePath) of Inr content \<Rightarrow> content | Inl err \<Rightarrow> None)"

definition fetch_ok :: "backend \<Rightarrow> string \<Rightarrow> string \<Rightarrow> bool" where
  "fetch_ok be tag filePath = (\<exists>content. fst (getFileContent be tag filePath) = Inr content)"

definition file_diff_of :: "backend \<Rightarrow> string \<Rightarrow> string \<Rightarrow> string \<Rightarrow> file_diff" where
  "file_diff_of be oldTag newTag fullPath =
     \<lparr>f_old = fetched be oldTag fullPath, f_new = fetched be newTag fullPath,
      f_diffs = computeDiffs (fetched be oldTag fullPath) (fetched be newTag fullPath)\<rparr>"

definition retained :: "file_diff \<Rightarrow> bool" where
  "retained fd = (f_diffs fd \<noteq> [] \<or> f_old fd = None \<or> f_new fd = None)"

definition env_files :: "backend \<Rightarrow> string \<Rightarrow> string \<Rightarrow> string list" where
  "env_files be tag env =
     (case fst (listFiles be tag (''config'' @ ''/'' @ env)) of
        Inr listed \<Rightarrow> filter (\<lambda>f. suffix ''.properties'' f) listed
      | Inl err \<Rightarrow> [])"

definition env_report_of :: "backend \<Rightarrow> string \<Rightarrow> string \<Rightarrow> string \<Rightarrow> env_report" where
  "env_report_of be oldTag newTag env =
     foldl (\<lambda>report fullPath.
              if retained (file_diff_of be oldTag newTag fullPath)
              then AList.update (path_basename be fullPath)
                     (file_diff_of be oldTag newTag fullPath) report
              else report)
       [] (env_files be newTag env)"

definition all_envs :: "backend \<Rightarrow> string \<Rightarrow> string \<Rightarrow> string list \<Rightarrow> env_report object" where
  "all_envs be oldTag newTag es =
     foldl (\<lambda>envs env.
              if True then AList.update env (env_report_of be oldTag newTag env) envs else envs)
       [] es"

section \<open>Example repositories\<close>

text \<open>
  Two small repositories on which the statements are evaluated. Their paths are the
  relative paths that \<^verbatim>\<open>git ls-tree --name-only\<close> prints, on which the functions of the
  \<^verbatim>\<open>path\<close> module of Node compute what \<open>posix_basename\<close>, \<open>posix_dirname\<close> and
  \<open>posix_relative\<close> compute. In \<open>example_repo\<close>, revision \<^verbatim>\<open>v2\<close> has the environments
  dev and pt: \<^verbatim>\<open>config/dev/y.properties\<close> is the same at \<^verbatim>\<open>v1\<close> and \<^verbatim>\<open>v2\<close>, the two
  files named \<^verbatim>\<open>x.properties\<close> in sub-directories of \<^verbatim>\<open>config/pt\<close> both changed, and
  \<^verbatim>\<open>config/pt/z.properties\<close> is new at \<^verbatim>\<open>v2\<close>. \<open>example_report\<close> is what the run on
  \<^verbatim>\<open>v1\<close> and \<^verbatim>\<open>v2\<close> prints. \<open>example_envs\<close> has files for pt and prod at \<^verbatim>\<open>v2\<close>:
  \<^verbatim>\<open>h.properties\<close> differs in a host name only, \<^verbatim>\<open>m.properties\<close> in a host name and a
  port, \<^verbatim>\<open>only.properties\<close> is a file of pt alone, and \<^verbatim>\<open>same.properties\<close> is the same in
  both. \<open>example_pt\<close> and \<open>example_prod\<close> are the contents loaded from it,
  \<open>example_default\<close> is what the run without a second argument prints, and
  \<open>example_unfiltered\<close> what the run with the second argument \<^verbatim>\<open>false\<close> prints.
\<close>

definition unlines :: "string list \<Rightarrow> string" where
  "unlines ls = concat (map (\<lambda>l. l @ [CHR 0x0A]) ls)"

fun join_segments :: "string list \<Rightarrow> string" where
  "join_segments [] = []"
| "join_segments [seg] = seg"
| "join_segments (seg # segs) = seg @ ''/'' @ join_segments segs"

definition posix_basename :: "string \<Rightarrow> string" where
  "posix_basename p = last (split_on CHR ''/'' p)"

definition posix_dirname :: "string \<Rightarrow> string" where
  "posix_dirname p =
     (case butlast (split_on CHR ''/'' p) of [] \<Rightarrow> ''.'' | segs \<Rightarrow> join_segments segs)"

definition posix_relative :: "string \<Rightarrow> string \<Rightarrow> string" where
  "posix_relative from to =
     (if to = from then []
      else if prefix (from @ ''/'') to then drop (length from + 1) to
      else ''../'' @ to)"

definition example_parse :: "string \<Rightarrow> properties" where
  "example_parse text =
     (if text = ''k=1'' then [(''k'', ''1'')]
      else if text = ''k=2'' then [(''k'', ''2'')]
      else if text = ''k=3'' then [(''k'', ''3'')]
      else if text = ''host=pt-svc'' then [(''host'', ''pt-svc'')]
      else if text = ''host=prod-svc'' then [(''host'', ''prod-svc'')]
      else if text = unlines [''host=pt-svc'', ''port=1'']
      then [(''host'', ''pt-svc''), (''port'', ''1'')]
      else if text = unlines [''host=prod-svc'', ''port=2'']
      then [(''host'', ''prod-svc''), (''port'', ''2'')]
      else [])"

definition not_in_revision :: string where
  "not_in_revision = ''fatal: path '' @ ''exists on disk, but not in'' @ '' this revision''"

definition example_repo :: backend where
  "example_repo =
     \<lparr>repoPath = ''/srv/cloud-config'',
      fs_access = (\<lambda>p. True),
      git_tags = Inr [''v1'', ''v2''],
      git_rev_list = Inr (unlines [''c0ffee'']),
      git_ls_tree = (\<lambda>tag dir.
        if tag = ''v2'' \<and> dir = ''config''
        then Inr (unlines [''config/dev/y.properties'', ''config/pt/a/x.properties'',
                           ''config/pt/b/x.properties'', ''config/pt/z.properties''])
        else if tag = ''v2'' \<and> dir = ''config/dev''
        then Inr (unlines [''config/dev/y.properties''])
        else if tag = ''v2'' \<and> dir = ''config/pt''
        then Inr (unlines [''config/pt/a/x.properties'', ''config/pt/b/x.properties'',
                           ''config/pt/z.properties''])
        else Inl ''fatal: not a valid pathspec''),
      git_show = (\<lambda>ref.
        if ref = ''v1:config/dev/y.properties'' then Inr ''k=1''
        else if ref = ''v2:config/dev/y.properties'' then Inr ''k=1''
        else if ref = ''v1:config/pt/a/x.properties'' then Inr ''k=1''
        else if ref = ''v2:config/pt/a/x.properties'' then Inr ''k=2''
        else if ref = ''v1:config/pt/b/x.properties'' then Inr ''k=1''
        else if ref = ''v2:config/pt/b/x.properties'' then Inr ''k=3''
        else if ref = ''v2:config/pt/z.properties'' then Inr ''k=1''
        else Inl not_in_revision),
      properties_parse = example_parse,
      path_join = (\<lambda>a b. a @ ''/'' @ b),
      path_basename = posix_basename,
      path_dirname = posix_dirname,
      path_relative = posix_relative\<rparr>"

definition example_report :: "env_report object" where
  "example_report =
     [(''pt'',
        [(''x.properties'',
           \<lparr>f_old = Some [(''k'', ''1'')], f_new = Some [(''k'', ''3'')],
            f_diffs = [\<lparr>d_key = ''k'', d_old = Some ''1'', d_new = Some ''3'',
                        d_type = ''changed''\<rparr>]\<rparr>),
         (''z.properties'',
           \<lparr>f_old = None, f_new = Some [(''k'', ''1'')],
            f_diffs = [\<lparr>d_key = ''k'', d_old = None, d_new = Some ''1'',
                        d_type = ''added''\<rparr>]\<rparr>)])]"

definition example_envs :: backend where
  "example_envs =
     example_repo
       \<lparr>git_ls_tree := (\<lambda>tag dir.
          if tag = ''v2'' \<and> dir = ''config/pt''
          then Inr (unlines [''config/pt/h.properties'', ''config/pt/m.properties'',
                             ''config/pt/only.properties'', ''config/pt/same.properties''])
          else if tag = ''v2'' \<and> dir = ''config/prod''
          then Inr (unlines [''config/prod/h.properties'', ''config/prod/m.properties'',
                             ''config/prod/same.properties''])
          else Inl ''fatal: not a valid pathspec''),
        git_show := (\<lambda>ref.
          if ref = ''v2:config/pt/h.properties'' then Inr ''host=pt-svc''
          else if ref = ''v2:config/pt/m.properties''
          then Inr (unlines [''host=pt-svc'', ''port=1''])
          else if ref = ''v2:config/pt/only.properties'' then Inr ''k=2''
          else if ref = ''v2:config/pt/same.properties'' then Inr ''k=1''
          else if ref = ''v2:config/prod/h.properties'' then Inr ''host=prod-svc''
          else if ref = ''v2:config/prod/m.properties''
          then Inr (unlines [''host=prod-svc'', ''port=2''])
          else if ref = ''v2:config/prod/same.properties'' then Inr ''k=1''
          else Inl not_in_revision)\<rparr>"

definition example_pt :: env_contents where
  "example_pt = [(''h.properties'', Some [(''host'', ''pt-svc'')]),
                 (''m.properties'', Some [(''host'', ''pt-svc''), (''port'', ''1'')]),
                 (''only.properties'', Some [(''k'', ''2'')]),
                 (''same.properties'', Some [(''k'', ''1'')])]"

definition example_prod :: env_contents where
  "example_prod = [(''h.properties'', Some [(''host'', ''prod-svc'')]),
                   (''m.properties'', Some [(''host'', ''prod-svc''), (''port'', ''2'')]),
                   (''same.properties'', Some [(''k'', ''1'')])]"

definition example_default :: "env_file_diff object" where
  "example_default =
     [(''m.properties'',
        \<lparr>x_pt = Some [(''host'', ''pt-svc''), (''port'', ''1'')],
         x_prod = Some [(''host'', ''prod-svc''), (''port'', ''2'')],
         x_diffs = [\<lparr>e_key = ''port'', e_pt = Some ''1'', e_prod = Some ''2'',
                     e_type = ''changed''\<rparr>]\<rparr>),
      (''only.properties'',
        \<lparr>x_pt = Some [(''k'', ''2'')], x_prod = None,
         x_diffs = [\<lparr>e_key = ''k'', e_pt = Some ''2'', e_prod = None,
                     e_type = ''added_in_pt''\<rparr>]\<rparr>)]"

definition example_unfiltered :: "env_file_diff object" where
  "example_unfiltered =
     [(''h.properties'',
        \<lparr>x_pt = Some [(''host'', ''pt-svc'')], x_prod = Some [(''host'', ''prod-svc'')],
         x_diffs = [\<lparr>e_key = ''host'', e_pt = Some ''pt-svc'', e_prod = Some ''prod-svc'',
                     e_type = ''changed''\<rparr>]\<rparr>),
      (''m.properties'',
        \<lparr>x_pt = Some [(''host'', ''pt-svc''), (''port'', ''1'')],
         x_prod = Some [(''host'', ''prod-svc''), (''port'', ''2'')],
         x_diffs = [\<lparr>e_key = ''host'', e_pt = Some ''pt-svc'', e_prod = Some ''prod-svc'',
                     e_type = ''changed''\<rparr>,
                    \<lparr>e_key = ''port'', e_pt = Some ''1'', e_prod = Some ''2'',
                     e_type = ''changed''\<rparr>]\<rparr>),
      (''only.properties'',
        \<lparr>x_pt = Some [(''k'', ''2'')], x_prod = None,
         x_diffs = [\<lparr>e_key = ''k'', e_pt = Some ''2'', e_prod = None,
                     e_type = ''added_in_pt''\<rparr>]\<rparr>)]"

section \<open>Properties of the diff engines\<close>

subsection \<open>Auxiliary facts\<close>

lemma set_foldl_set_add: "set (foldl set_add acc xs) = set acc \<union> set xs"
  by (induction xs arbitrary: acc) (auto simp: set_add_def)

lemma distinct_foldl_set_add: "distinct acc \<Longrightarrow> distinct (foldl set_add acc xs)"
  by (induction xs arbitrary: acc) (auto simp: set_add_def)

lemma set_new_Set: "set (new_Set xs) = set xs"
  by (simp add: new_Set_def set_foldl_set_add)

lemma distinct_new_Set: "distinct (new_Set xs)"
  by (simp add: new_Set_def distinct_foldl_set_add)

lemma diff_visit_append: "diff_visit A B acc k = acc @ diff_visit A B [] k"
  by (simp add: diff_visit_def Let_def)

lemma foldl_diff_visit:
  "foldl (diff_visit A B) acc ks = acc @ concat (map (diff_visit A B []) ks)"
proof (induction ks arbitrary: acc)
  case Nil
  show ?case by simp
next
  case (Cons k ks)
  show ?case
    by (simp add: Cons.IH diff_visit_append [of A B acc k])
qed

lemma env_visit_append: "env_visit A B f acc k = acc @ env_visit A B f [] k"
  by (simp add: env_visit_def Let_def)

lemma foldl_env_visit:
  "foldl (env_visit A B f) acc ks = acc @ concat (map (env_visit A B f []) ks)"
proof (induction ks arbitrary: acc)
  case Nil
  show ?case by simp
next
  case (Cons k ks)
  show ?case
    by (simp add: Cons.IH env_visit_append [of A B f acc k])
qed

lemma keys_diff_visit:
  "map d_key (concat (map (diff_visit A B []) ks)) = filter (\<lambda>k. value_of A k \<noteq> value_of B k) ks"
  by (induction ks) (auto simp: diff_visit_def Let_def)

lemma keys_env_visit:
  "map e_key (concat (map (env_visit A B f []) ks))
     = filter (\<lambda>k. value_of A k \<noteq> value_of B k \<and> \<not> shouldIgnore f (value_of A k) (value_of B k)) ks"
  by (induction ks) (auto simp: env_visit_def Let_def)

lemma value_of_None_iff: "value_of A k = None \<longleftrightarrow> k \<notin> set (keys_or_empty A)"
  by (auto simp: value_of_def keys_or_empty_def map_of_eq_None_iff split: option.splits)


lemma computeDiffs_concat:
  "computeDiffs A B = concat (map (diff_visit A B []) (new_Set (keys_or_empty A @ keys_or_empty B)))"
  by (simp add: computeDiffs_def Let_def foldl_diff_visit)

lemma computeDiffs_env_concat:
  "computeDiffs_env A B f = concat (map (env_visit A B f []) (new_Set (keys_or_empty A @ keys_or_empty B)))"
  by (simp add: computeDiffs_env_def Let_def foldl_env_visit)

lemma keys_computeDiffs:
  "map d_key (computeDiffs A B)
     = filter (\<lambda>k. value_of A k \<noteq> value_of B k) (new_Set (keys_or_empty A @ keys_or_empty B))"
  by (simp only: computeDiffs_concat keys_diff_visit)

lemma keys_computeDiffs_env:
  "map e_key (computeDiffs_env A B f)
     = filter (\<lambda>k. value_of A k \<noteq> value_of B k \<and> \<not> shouldIgnore f (value_of A k) (value_of B k))
         (new_Set (keys_or_empty A @ keys_or_empty B))"
  by (simp only: computeDiffs_env_concat keys_env_visit)

lemma shouldIgnore_False: "shouldIgnore False l r = False"
  by (simp add: shouldIgnore_def)

lemma disagree_iff:
  "(k \<in> set (keys_or_empty A) \<union> set (keys_or_empty B) \<and> value_of A k \<noteq> value_of B k)
   \<longleftrightarrow> (k \<in> set (keys_or_empty A) \<and> k \<notin> set (keys_or_empty B))
      \<or> (k \<in> set (keys_or_empty B) \<and> k \<notin> set (keys_or_empty A))
      \<or> (\<exists>x y. value_of A k = Some x \<and> value_of B k = Some y \<and> x \<noteq> y)"
  using value_of_None_iff [of A k] value_of_None_iff [of B k]
  by (cases "value_of A k"; cases "value_of B k") auto

lemma set_computeDiffs:
  "set (computeDiffs A B)
     = {r. \<exists>k. k \<in> set (keys_or_empty A) \<union> set (keys_or_empty B) \<and> r \<in> set (diff_visit A B [] k)}"
  by (auto simp: computeDiffs_concat set_new_Set)

lemma set_computeDiffs_env:
  "set (computeDiffs_env A B f)
     = {r. \<exists>k. k \<in> set (keys_or_empty A) \<union> set (keys_or_empty B) \<and> r \<in> set (env_visit A B f [] k)}"
  by (auto simp: computeDiffs_env_concat set_new_Set)

lemma in_diff_visitD:
  assumes "r \<in> set (diff_visit A B [] k)"
  shows "d_key r = k \<and> d_old r = value_of A k \<and> d_new r = value_of B k
         \<and> value_of A k \<noteq> value_of B k
         \<and> d_type r = (if value_of A k = None then ''added''
                        else if value_of B k = None then ''removed'' else ''changed'')"
  using assms by (auto simp: diff_visit_def Let_def split: if_splits)

lemma in_env_visitD:
  assumes "r \<in> set (env_visit A B f [] k)"
  shows "e_key r = k \<and> e_pt r = value_of A k \<and> e_prod r = value_of B k
         \<and> value_of A k \<noteq> value_of B k
         \<and> \<not> shouldIgnore f (value_of A k) (value_of B k)
         \<and> e_type r = (if value_of A k = None then ''added_in_prod''
                        else if value_of B k = None then ''added_in_pt'' else ''changed'')"
  using assms by (auto simp: env_visit_def Let_def split: if_splits)

lemma computeDiffs_scenario1:
  "computeDiffs (Some [(''a'', ''1''), (''b'', ''2'')])
                (Some [(''a'', ''1''), (''b'', ''3''), (''c'', ''4'')])
   = [\<lparr>d_key = ''b'', d_old = Some ''2'', d_new = Some ''3'', d_type = ''changed''\<rparr>,
      \<lparr>d_key = ''c'', d_old = None, d_new = Some ''4'', d_type = ''added''\<rparr>]"
  by (simp add: computeDiffs_def new_Set_def set_add_def keys_or_empty_def diff_visit_def
        value_of_def)

lemma normalize_pt_svc: "normalizeValue (Some ''pt-svc'') True = ''svc''"
  by (simp add: normalizeValue_def patterns_of_def)

lemma normalize_prod_svc: "normalizeValue (Some ''prod-svc'') False = ''svc''"
  by (simp add: normalizeValue_def patterns_of_def)

lemma computeDiffs_env_example:
  "computeDiffs_env (Some [(''host'', ''pt-svc''), (''gone'', ''1'')])
                    (Some [(''host'', ''prod-svc''), (''fresh'', ''2'')]) False
   = [\<lparr>e_key = ''host'', e_pt = Some ''pt-svc'', e_prod = Some ''prod-svc'', e_type = ''changed''\<rparr>,
      \<lparr>e_key = ''gone'', e_pt = Some ''1'', e_prod = None, e_type = ''added_in_pt''\<rparr>,
      \<lparr>e_key = ''fresh'', e_pt = None, e_prod = Some ''2'', e_type = ''added_in_prod''\<rparr>]"
  by (simp add: computeDiffs_env_def new_Set_def set_add_def keys_or_empty_def env_visit_def
        value_of_def shouldIgnore_def)

lemma computeDiffs_env_example_filtered:
  "computeDiffs_env (Some [(''host'', ''pt-svc''), (''gone'', ''1'')])
                    (Some [(''host'', ''prod-svc''), (''fresh'', ''2'')]) True
   = [\<lparr>e_key = ''gone'', e_pt = Some ''1'', e_prod = None, e_type = ''added_in_pt''\<rparr>,
      \<lparr>e_key = ''fresh'', e_pt = None, e_prod = Some ''2'', e_type = ''added_in_prod''\<rparr>]"
  by (simp add: computeDiffs_env_def new_Set_def set_add_def keys_or_empty_def env_visit_def
        value_of_def shouldIgnore_def normalizeValue_def patterns_of_def)

lemma normalizeValue_None: "normalizeValue None isPt = []"
  by (simp add: normalizeValue_def)

lemma shouldIgnore_True:
  "shouldIgnore True l r \<longleftrightarrow>
     normalizeValue l True \<noteq> [] \<and> normalizeValue r False \<noteq> []
     \<and> normalizeValue l True = normalizeValue r False"
  by (simp add: shouldIgnore_def Let_def)

lemma env_visit_True_filter:
  "env_visit A B True [] k
     = filter (\<lambda>r. \<not> (e_type r = ''changed''
                        \<and> normalizeValue (e_pt r) True = normalizeValue (e_prod r) False
                        \<and> normalizeValue (e_pt r) True \<noteq> []))
         (env_visit A B False [] k)"
  by (cases "value_of A k"; cases "value_of B k")
     (auto simp: env_visit_def Let_def shouldIgnore_True shouldIgnore_False normalizeValue_None)

lemma env_visit_unchanged_kinds:
  "filter (\<lambda>r. e_type r \<noteq> ''changed'') (env_visit A B True [] k)
     = filter (\<lambda>r. e_type r \<noteq> ''changed'') (env_visit A B False [] k)"
  by (cases "value_of A k"; cases "value_of B k")
     (auto simp: env_visit_def Let_def shouldIgnore_True shouldIgnore_False normalizeValue_None)

lemma shouldIgnore_True_values:
  "value_of A k \<noteq> value_of B k \<and> shouldIgnore True (value_of A k) (value_of B k)
   \<longleftrightarrow> (\<exists>l r. value_of A k = Some l \<and> value_of B k = Some r \<and> l \<noteq> r
              \<and> normalizeValue (Some l) True = normalizeValue (Some r) False
              \<and> normalizeValue (Some l) True \<noteq> [])"
  by (cases "value_of A k"; cases "value_of B k")
     (auto simp: shouldIgnore_True normalizeValue_None)

lemma nths_Collect: "nths s {i. P i} = map (\<lambda>i. s ! i) (filter P [0..<length s])"
proof (induction s rule: rev_induct)
  case Nil
  show ?case by simp
next
  case (snoc x xs)
  have "map (\<lambda>i. (xs @ [x]) ! i) (filter P [0..<length xs])
          = map (\<lambda>i. xs ! i) (filter P [0..<length xs])"
    by (rule map_cong) (auto simp: nth_append)
  then show ?case
    using snoc.IH by (simp add: nths_append)
qed

lemma nths_cong_below:
  assumes "\<And>i. i < length xs \<Longrightarrow> (i \<in> A \<longleftrightarrow> i \<in> B)"
  shows "nths xs A = nths xs B"
proof -
  have "filter (\<lambda>p. snd p \<in> A) (zip xs [0..<length xs])
          = filter (\<lambda>p. snd p \<in> B) (zip xs [0..<length xs])"
    by (rule filter_cong) (auto dest!: set_zip_rightD simp: assms)
  then show ?thesis by (simp add: nths_def)
qed

lemma inside_occurrence_iff:
  "inside_occurrence pat s i \<longleftrightarrow> (\<exists>j\<le>i. i < j + length pat \<and> occurs_at pat s j)"
  unfolding inside_occurrence_def list_ex_iff set_upt
  by (auto simp: less_Suc_eq_le)

lemma spec_delete_nths:
  "spec_delete_occurrences pat s = nths s {i. \<not> inside_occurrence pat s i}"
  by (simp add: spec_delete_occurrences_def nths_Collect)

lemma occurs_at_0: "occurs_at pat s 0 \<longleftrightarrow> prefix pat s"
proof
  assume "occurs_at pat s 0"
  then have "take (length pat) s = pat" by (simp add: occurs_at_def)
  then show "prefix pat s" using take_is_prefix [of "length pat" s] by simp
next
  assume "prefix pat s"
  then obtain r where "s = pat @ r" by (auto simp: prefix_def)
  then show "occurs_at pat s 0" by (simp add: occurs_at_def)
qed

lemma occurs_at_Suc: "occurs_at pat (c # cs) (Suc j) = occurs_at pat cs j"
  by (simp add: occurs_at_def)

lemma occurs_at_shift:
  "length u \<le> j \<Longrightarrow> occurs_at pat (u @ r) j = occurs_at pat r (j - length u)"
  by (simp add: occurs_at_def)

lemma unbordered_no_inner:
  assumes "unbordered pat" "0 < j" "j < length pat"
  shows "\<not> occurs_at pat (pat @ r) j"
proof
  assume "occurs_at pat (pat @ r) j"
  then have "take (length pat) (drop j pat @ r) = pat"
    using assms(3) by (simp add: occurs_at_def)
  then have "take (length pat - j) (take (length pat) (drop j pat @ r)) = take (length pat - j) pat"
    by simp
  then have "drop j pat = take (length pat - j) pat"
    using assms(3) by (simp add: min_def)
  moreover have "take (length pat - j) pat \<noteq> drop j pat"
    using assms by (simp add: unbordered_def list_all_iff)
  ultimately show False by simp
qed

lemma replace_global_spec:
  "unbordered pat \<Longrightarrow> replace_global pat s = spec_delete_occurrences pat s"
proof (induction pat s rule: replace_global.induct)
  case (1 s)
  then show ?case by (simp add: unbordered_def)
next
  case (2 p ps)
  show ?case by (simp add: spec_delete_occurrences_def)
next
  case (3 p ps c cs)
  let ?pat = "p # ps"
  let ?s = "c # cs"
  let ?S = "{i. \<not> inside_occurrence ?pat ?s i}"
  note ub = \<open>unbordered ?pat\<close>
  show ?case
  proof (cases "prefix ?pat ?s")
    case True
    then obtain r where r: "?s = ?pat @ r" by (auto simp: prefix_def)
    then have dr: "drop (length ps) cs = r" by simp
    have ih: "replace_global ?pat r = nths r {i. \<not> inside_occurrence ?pat r i}"
      using "3.IH"(1) [OF True ub] dr by (simp add: spec_delete_nths)
    have o0: "occurs_at ?pat (?pat @ r) 0" by (simp add: occurs_at_def)
    have a: "nths ?pat {i. \<not> inside_occurrence ?pat (?pat @ r) i} = nths ?pat {}"
    proof (rule nths_cong_below)
      fix i assume "i < length ?pat"
      then have "inside_occurrence ?pat (?pat @ r) i"
        unfolding inside_occurrence_iff using o0 by (intro exI [of _ 0]) simp
      then show "i \<in> {i. \<not> inside_occurrence ?pat (?pat @ r) i} \<longleftrightarrow> i \<in> {}" by simp
    qed
    have b: "nths r {j. j + length ?pat \<in> {i. \<not> inside_occurrence ?pat (?pat @ r) i}}
               = nths r {i. \<not> inside_occurrence ?pat r i}"
    proof (rule nths_cong_below)
      fix j assume "j < length r"
      have "inside_occurrence ?pat (?pat @ r) (j + length ?pat) \<longleftrightarrow> inside_occurrence ?pat r j"
      proof
        assume "inside_occurrence ?pat (?pat @ r) (j + length ?pat)"
        then obtain j' where j': "j' \<le> j + length ?pat" "j + length ?pat < j' + length ?pat"
            "occurs_at ?pat (?pat @ r) j'"
          unfolding inside_occurrence_iff by blast
        from j'(2) have "0 < j'" by simp
        with unbordered_no_inner [OF ub, of j' r] j'(3) have ge: "length ?pat \<le> j'"
          by (cases "j' < length ?pat") auto
        with j'(3) have "occurs_at ?pat r (j' - length ?pat)"
          by (simp only: occurs_at_shift)
        moreover from ge j'(1) have "j' - length ?pat \<le> j" by simp
        moreover from ge j'(2) have "j < (j' - length ?pat) + length ?pat" by simp
        ultimately show "inside_occurrence ?pat r j"
          unfolding inside_occurrence_iff by blast
      next
        assume "inside_occurrence ?pat r j"
        then obtain j' where j': "j' \<le> j" "j < j' + length ?pat" "occurs_at ?pat r j'"
          unfolding inside_occurrence_iff by blast
        from j'(3) have "occurs_at ?pat (?pat @ r) (j' + length ?pat)"
          using occurs_at_shift [of ?pat "j' + length ?pat" ?pat r] by simp
        with j'(1,2) show "inside_occurrence ?pat (?pat @ r) (j + length ?pat)"
          unfolding inside_occurrence_iff by (intro exI [of _ "j' + length ?pat"]) simp
      qed
      then show "j \<in> {j. j + length ?pat \<in> {i. \<not> inside_occurrence ?pat (?pat @ r) i}}
                   \<longleftrightarrow> j \<in> {i. \<not> inside_occurrence ?pat r i}"
        by simp
    qed
    have "spec_delete_occurrences ?pat ?s = nths (?pat @ r) {i. \<not> inside_occurrence ?pat (?pat @ r) i}"
      by (simp only: spec_delete_nths r)
    also have "\<dots> = nths r {i. \<not> inside_occurrence ?pat r i}"
      by (simp only: nths_append a b nths_empty append_Nil)
    finally have sp: "spec_delete_occurrences ?pat ?s = nths r {i. \<not> inside_occurrence ?pat r i}" .
    have "replace_global ?pat ?s = replace_global ?pat r"
      by (simp only: replace_global.simps(3) True if_True dr)
    then show ?thesis by (simp only: ih sp)
  next
    case False
    have ih: "replace_global ?pat cs = nths cs {i. \<not> inside_occurrence ?pat cs i}"
      using "3.IH"(2) [OF False ub] by (simp add: spec_delete_nths)
    have no0: "\<not> occurs_at ?pat ?s 0" using False by (simp add: occurs_at_0)
    have z: "0 \<in> ?S"
      using no0 by (simp add: inside_occurrence_iff)
    have b: "nths cs {j. Suc j \<in> ?S} = nths cs {i. \<not> inside_occurrence ?pat cs i}"
    proof (rule nths_cong_below)
      fix j assume "j < length cs"
      have "inside_occurrence ?pat ?s (Suc j) \<longleftrightarrow> inside_occurrence ?pat cs j"
      proof
        assume "inside_occurrence ?pat ?s (Suc j)"
        then obtain j' where j': "j' \<le> Suc j" "Suc j < j' + length ?pat" "occurs_at ?pat ?s j'"
          unfolding inside_occurrence_iff by blast
        with no0 obtain k where k: "j' = Suc k" by (cases j') auto
        with j' have "k \<le> j" "j < k + length ?pat" "occurs_at ?pat cs k"
          by (simp_all add: occurs_at_Suc)
        then show "inside_occurrence ?pat cs j"
          unfolding inside_occurrence_iff by blast
      next
        assume "inside_occurrence ?pat cs j"
        then obtain k where k: "k \<le> j" "j < k + length ?pat" "occurs_at ?pat cs k"
          unfolding inside_occurrence_iff by blast
        then show "inside_occurrence ?pat ?s (Suc j)"
          unfolding inside_occurrence_iff
          by (intro exI [of _ "Suc k"]) (simp add: occurs_at_Suc)
      qed
      then show "j \<in> {j. Suc j \<in> ?S} \<longleftrightarrow> j \<in> {i. \<not> inside_occurrence ?pat cs i}"
        by simp
    qed
    have "spec_delete_occurrences ?pat ?s = nths ?s ?S"
      by (simp only: spec_delete_nths)
    also have "\<dots> = c # nths cs {i. \<not> inside_occurrence ?pat cs i}"
      using z by (simp only: nths_Cons b if_True append_Cons append_Nil)
    finally have sp: "spec_delete_occurrences ?pat ?s = c # nths cs {i. \<not> inside_occurrence ?pat cs i}" .
    have "replace_global ?pat ?s = c # replace_global ?pat cs"
      by (simp only: replace_global.simps(3) False if_False)
    then show ?thesis by (simp only: ih sp)
  qed
qed

lemma unbordered_patterns:
  "unbordered ''pt-''" "unbordered ''contents-pt''"
  "unbordered ''prod-''" "unbordered ''prd-''" "unbordered ''contents''"
  by (simp_all add: unbordered_def upt_rec)

subsection \<open>The keys of the output\<close>

text \<open>
  C1. Without suppression, the keys of the records that either diff engine returns are
  exactly the keys on which the two sides disagree: a key that only one side has, or a
  key that both sides have with different values. A key with equal values on both sides
  is not in the output, and no key is in two records. The left side, the right side or
  both may be absent.
\<close>

theorem diff_keys_exact:
  "set (map d_key (computeDiffs A B))
     = {k. (k \<in> set (keys_or_empty A) \<and> k \<notin> set (keys_or_empty B))
         \<or> (k \<in> set (keys_or_empty B) \<and> k \<notin> set (keys_or_empty A))
         \<or> (\<exists>x y. value_of A k = Some x \<and> value_of B k = Some y \<and> x \<noteq> y)}
   \<and> distinct (map d_key (computeDiffs A B))
   \<and> set (map e_key (computeDiffs_env A B False))
     = {k. (k \<in> set (keys_or_empty A) \<and> k \<notin> set (keys_or_empty B))
         \<or> (k \<in> set (keys_or_empty B) \<and> k \<notin> set (keys_or_empty A))
         \<or> (\<exists>x y. value_of A k = Some x \<and> value_of B k = Some y \<and> x \<noteq> y)}
   \<and> distinct (map e_key (computeDiffs_env A B False))"
proof -
  let ?D = "{k. (k \<in> set (keys_or_empty A) \<and> k \<notin> set (keys_or_empty B))
         \<or> (k \<in> set (keys_or_empty B) \<and> k \<notin> set (keys_or_empty A))
         \<or> (\<exists>x y. value_of A k = Some x \<and> value_of B k = Some y \<and> x \<noteq> y)}"
  have d: "{k. k \<in> set (keys_or_empty A) \<union> set (keys_or_empty B) \<and> value_of A k \<noteq> value_of B k} = ?D"
    using disagree_iff [of _ A B] by blast
  have 1: "set (map d_key (computeDiffs A B)) = ?D"
    unfolding keys_computeDiffs using d by (auto simp: set_new_Set)
  have 2: "distinct (map d_key (computeDiffs A B))"
    unfolding keys_computeDiffs by (simp add: distinct_new_Set)
  have 3: "set (map e_key (computeDiffs_env A B False)) = ?D"
    unfolding keys_computeDiffs_env shouldIgnore_False using d by (auto simp: set_new_Set)
  have 4: "distinct (map e_key (computeDiffs_env A B False))"
    unfolding keys_computeDiffs_env by (simp add: distinct_new_Set)
  from 1 2 3 4 show ?thesis by blast
qed


subsection \<open>Classification of the records\<close>

text \<open>
  C4. Every record that a diff engine returns carries the two looked-up values and one of
  three kinds. In \<^verbatim>\<open>check_config.js\<close> the kind is \<^verbatim>\<open>added\<close> exactly when only the new
  object has the key, \<^verbatim>\<open>removed\<close> exactly when only the old object has it, and
  \<^verbatim>\<open>changed\<close> exactly when both have it with different values. In
  \<^verbatim>\<open>compare_envs.js\<close>, with or without suppression, \<^verbatim>\<open>added_in_prod\<close> is the kind of a
  key that only the right (prod) object has, \<^verbatim>\<open>added_in_pt\<close> that of a key that only the
  left (pt) object has, and \<^verbatim>\<open>changed\<close> that of a key that both have with different values.
\<close>

theorem change_kind_classification:
  "(r \<in> set (computeDiffs A B) \<longrightarrow>
      d_old r = value_of A (d_key r) \<and> d_new r = value_of B (d_key r)
      \<and> d_type r \<in> {''added'', ''removed'', ''changed''}
      \<and> (d_type r = ''added'' \<longleftrightarrow>
           d_key r \<notin> set (keys_or_empty A) \<and> d_key r \<in> set (keys_or_empty B))
      \<and> (d_type r = ''removed'' \<longleftrightarrow>
           d_key r \<in> set (keys_or_empty A) \<and> d_key r \<notin> set (keys_or_empty B))
      \<and> (d_type r = ''changed'' \<longleftrightarrow>
           (\<exists>x y. value_of A (d_key r) = Some x \<and> value_of B (d_key r) = Some y \<and> x \<noteq> y)))
   \<and> (e \<in> set (computeDiffs_env P Q f) \<longrightarrow>
      e_pt e = value_of P (e_key e) \<and> e_prod e = value_of Q (e_key e)
      \<and> e_type e \<in> {''added_in_prod'', ''added_in_pt'', ''changed''}
      \<and> (e_type e = ''added_in_prod'' \<longleftrightarrow>
           e_key e \<notin> set (keys_or_empty P) \<and> e_key e \<in> set (keys_or_empty Q))
      \<and> (e_type e = ''added_in_pt'' \<longleftrightarrow>
           e_key e \<in> set (keys_or_empty P) \<and> e_key e \<notin> set (keys_or_empty Q))
      \<and> (e_type e = ''changed'' \<longleftrightarrow>
           (\<exists>x y. value_of P (e_key e) = Some x \<and> value_of Q (e_key e) = Some y \<and> x \<noteq> y)))"
proof (intro conjI impI)
  assume "r \<in> set (computeDiffs A B)"
  then obtain k where "r \<in> set (diff_visit A B [] k)"
    by (auto simp: set_computeDiffs)
  note d = in_diff_visitD [OF this]
  from d show "d_old r = value_of A (d_key r)" by simp
  from d show "d_new r = value_of B (d_key r)" by simp
  from d show "d_type r \<in> {''added'', ''removed'', ''changed''}" by simp
  from d value_of_None_iff [of A k] value_of_None_iff [of B k]
  show "d_type r = ''added'' \<longleftrightarrow>
           d_key r \<notin> set (keys_or_empty A) \<and> d_key r \<in> set (keys_or_empty B)"
    by (cases "value_of A k"; cases "value_of B k") auto
  from d value_of_None_iff [of A k] value_of_None_iff [of B k]
  show "d_type r = ''removed'' \<longleftrightarrow>
           d_key r \<in> set (keys_or_empty A) \<and> d_key r \<notin> set (keys_or_empty B)"
    by (cases "value_of A k"; cases "value_of B k") auto
  from d show "d_type r = ''changed'' \<longleftrightarrow>
           (\<exists>x y. value_of A (d_key r) = Some x \<and> value_of B (d_key r) = Some y \<and> x \<noteq> y)"
    by (cases "value_of A k"; cases "value_of B k") auto
next
  assume "e \<in> set (computeDiffs_env P Q f)"
  then obtain k where "e \<in> set (env_visit P Q f [] k)"
    by (auto simp: set_computeDiffs_env)
  note d = in_env_visitD [OF this]
  from d show "e_pt e = value_of P (e_key e)" by simp
  from d show "e_prod e = value_of Q (e_key e)" by simp
  from d show "e_type e \<in> {''added_in_prod'', ''added_in_pt'', ''changed''}" by simp
  from d value_of_None_iff [of P k] value_of_None_iff [of Q k]
  show "e_type e = ''added_in_prod'' \<longleftrightarrow>
           e_key e \<notin> set (keys_or_empty P) \<and> e_key e \<in> set (keys_or_empty Q)"
    by (cases "value_of P k"; cases "value_of Q k") auto
  from d value_of_None_iff [of P k] value_of_None_iff [of Q k]
  show "e_type e = ''added_in_pt'' \<longleftrightarrow>
           e_key e \<in> set (keys_or_empty P) \<and> e_key e \<notin> set (keys_or_empty Q)"
    by (cases "value_of P k"; cases "value_of Q k") auto
  from d show "e_type e = ''changed'' \<longleftrightarrow>
           (\<exists>x y. value_of P (e_key e) = Some x \<and> value_of Q (e_key e) = Some y \<and> x \<noteq> y)"
    by (cases "value_of P k"; cases "value_of Q k") auto
qed

text \<open>
  The theorem at the first scenario of the specification and at a pair of pt and prod
  objects: an added key and a key that only pt has.
\<close>

theorem change_kind_classification_witness:
  "\<lparr>d_key = ''c'', d_old = None, d_new = Some ''4'', d_type = ''added''\<rparr>
     \<in> set (computeDiffs (Some [(''a'', ''1''), (''b'', ''2'')])
                           (Some [(''a'', ''1''), (''b'', ''3''), (''c'', ''4'')]))
   \<and> ''c'' \<notin> set (keys_or_empty (Some [(''a'', ''1''), (''b'', ''2'')]))
   \<and> ''c'' \<in> set (keys_or_empty (Some [(''a'', ''1''), (''b'', ''3''), (''c'', ''4'')]))
   \<and> \<lparr>e_key = ''gone'', e_pt = Some ''1'', e_prod = None, e_type = ''added_in_pt''\<rparr>
     \<in> set (computeDiffs_env (Some [(''host'', ''pt-svc''), (''gone'', ''1'')])
                    (Some [(''host'', ''prod-svc''), (''fresh'', ''2'')]) True)
   \<and> ''gone'' \<in> set (keys_or_empty (Some [(''host'', ''pt-svc''), (''gone'', ''1'')]))
   \<and> ''gone'' \<notin> set (keys_or_empty (Some [(''host'', ''prod-svc''), (''fresh'', ''2'')]))"
  using change_kind_classification
    [of "\<lparr>d_key = ''c'', d_old = None, d_new = Some ''4'', d_type = ''added''\<rparr>"
        "Some [(''a'', ''1''), (''b'', ''2'')]"
        "Some [(''a'', ''1''), (''b'', ''3''), (''c'', ''4'')]"
        "\<lparr>e_key = ''gone'', e_pt = Some ''1'', e_prod = None, e_type = ''added_in_pt''\<rparr>"
        "Some [(''host'', ''pt-svc''), (''gone'', ''1'')]"
        "Some [(''host'', ''prod-svc''), (''fresh'', ''2'')]" True]
  by (simp add: computeDiffs_scenario1 computeDiffs_env_example_filtered)


subsection \<open>Suppression\<close>

text \<open>
  C2. The output of \<^verbatim>\<open>computeDiffs\<close> of \<^verbatim>\<open>compare_envs.js\<close> with suppression is its
  output without suppression, less exactly the records of kind \<^verbatim>\<open>changed\<close> whose left
  value, normalized for pt, equals the right value, normalized for prod, this string not
  being empty. For a key: it has a record without suppression and none with suppression
  if and only if both sides have it, with different values whose normalizations are equal
  and not empty. The records of the other two kinds are the same with and without
  suppression.
\<close>

theorem suppression_exact:
  "computeDiffs_env A B True
     = filter (\<lambda>r. \<not> (e_type r = ''changed''
                        \<and> normalizeValue (e_pt r) True = normalizeValue (e_prod r) False
                        \<and> normalizeValue (e_pt r) True \<noteq> []))
         (computeDiffs_env A B False)
   \<and> (k \<in> set (map e_key (computeDiffs_env A B False))
        \<and> k \<notin> set (map e_key (computeDiffs_env A B True))
      \<longleftrightarrow> (\<exists>l r. value_of A k = Some l \<and> value_of B k = Some r \<and> l \<noteq> r
                 \<and> normalizeValue (Some l) True = normalizeValue (Some r) False
                 \<and> normalizeValue (Some l) True \<noteq> []))
   \<and> filter (\<lambda>r. e_type r \<noteq> ''changed'') (computeDiffs_env A B True)
     = filter (\<lambda>r. e_type r \<noteq> ''changed'') (computeDiffs_env A B False)"
proof (intro conjI)
  show "computeDiffs_env A B True
     = filter (\<lambda>r. \<not> (e_type r = ''changed''
                        \<and> normalizeValue (e_pt r) True = normalizeValue (e_prod r) False
                        \<and> normalizeValue (e_pt r) True \<noteq> []))
         (computeDiffs_env A B False)"
    unfolding computeDiffs_env_concat filter_concat map_map comp_def
    by (simp only: env_visit_True_filter [symmetric])
next
  show "filter (\<lambda>r. e_type r \<noteq> ''changed'') (computeDiffs_env A B True)
     = filter (\<lambda>r. e_type r \<noteq> ''changed'') (computeDiffs_env A B False)"
    unfolding computeDiffs_env_concat filter_concat map_map comp_def
    by (simp only: env_visit_unchanged_kinds)
next
  have u: "k \<in> set (map e_key (computeDiffs_env A B False))
        \<and> k \<notin> set (map e_key (computeDiffs_env A B True))
      \<longleftrightarrow> k \<in> set (keys_or_empty A) \<union> set (keys_or_empty B)
          \<and> value_of A k \<noteq> value_of B k \<and> shouldIgnore True (value_of A k) (value_of B k)"
    unfolding keys_computeDiffs_env by (auto simp: set_new_Set shouldIgnore_False)
  have v: "value_of A k \<noteq> value_of B k \<Longrightarrow> k \<in> set (keys_or_empty A) \<union> set (keys_or_empty B)"
    using value_of_None_iff [of A k] value_of_None_iff [of B k]
    by (cases "value_of A k"; cases "value_of B k") auto
  show "k \<in> set (map e_key (computeDiffs_env A B False))
        \<and> k \<notin> set (map e_key (computeDiffs_env A B True))
      \<longleftrightarrow> (\<exists>l r. value_of A k = Some l \<and> value_of B k = Some r \<and> l \<noteq> r
                 \<and> normalizeValue (Some l) True = normalizeValue (Some r) False
                 \<and> normalizeValue (Some l) True \<noteq> [])"
    unfolding u using v shouldIgnore_True_values [of A k B] by blast
qed

text \<open>
  The theorem at the second scenario of the specification: the record of \<^verbatim>\<open>host\<close> is
  returned without suppression and dropped with it.
\<close>

theorem suppression_exact_witness:
  "computeDiffs_env (Some [(''host'', ''pt-svc'')]) (Some [(''host'', ''prod-svc'')]) False
     = [\<lparr>e_key = ''host'', e_pt = Some ''pt-svc'', e_prod = Some ''prod-svc'',
         e_type = ''changed''\<rparr>]
   \<and> computeDiffs_env (Some [(''host'', ''pt-svc'')]) (Some [(''host'', ''prod-svc'')]) True = []"
proof -
  have u: "computeDiffs_env (Some [(''host'', ''pt-svc'')]) (Some [(''host'', ''prod-svc'')]) False
     = [\<lparr>e_key = ''host'', e_pt = Some ''pt-svc'', e_prod = Some ''prod-svc'',
         e_type = ''changed''\<rparr>]"
    by (simp add: computeDiffs_env_def new_Set_def set_add_def keys_or_empty_def env_visit_def
          value_of_def shouldIgnore_def)
  show ?thesis
    using suppression_exact
      [of "Some [(''host'', ''pt-svc'')]" "Some [(''host'', ''prod-svc'')]" "''host''"]
    by (simp add: u normalize_pt_svc normalize_prod_svc)
qed

subsection \<open>Normalization is not idempotent\<close>

text \<open>
  C10. \<^verbatim>\<open>normalizeValue\<close> is not idempotent. Each pattern is removed in one pass from left
  to right, and a removal can bring characters together that form the pattern again: for
  pt, \<^verbatim>\<open>ppt-t-x\<close> becomes \<^verbatim>\<open>pt-x\<close>, which starts with \<^verbatim>\<open>pt-\<close>, and normalizing
  \<^verbatim>\<open>pt-x\<close> gives \<^verbatim>\<open>x\<close>.
\<close>

theorem normalize_not_idempotent:
  "normalizeValue (Some ''ppt-t-x'') True = ''pt-x''
   \<and> prefix ''pt-'' (normalizeValue (Some ''ppt-t-x'') True)
   \<and> normalizeValue (Some (normalizeValue (Some ''ppt-t-x'') True)) True = ''x''
   \<and> \<not> (\<forall>v isPt. normalizeValue (Some (normalizeValue (Some v) isPt)) isPt
                    = normalizeValue (Some v) isPt)"
proof -
  have 1: "normalizeValue (Some ''ppt-t-x'') True = ''pt-x''"
    by (simp add: normalizeValue_def patterns_of_def)
  have 2: "normalizeValue (Some ''pt-x'') True = ''x''"
    by (simp add: normalizeValue_def patterns_of_def)
  have "normalizeValue (Some (normalizeValue (Some ''ppt-t-x'') True)) True
          \<noteq> normalizeValue (Some ''ppt-t-x'') True"
    by (simp add: 1 2)
  then have 3: "\<not> (\<forall>v isPt. normalizeValue (Some (normalizeValue (Some v) isPt)) isPt
                    = normalizeValue (Some v) isPt)"
    by blast
  from 1 2 3 show ?thesis by simp
qed


subsection \<open>The normalizer\<close>

text \<open>
  C3. \<^verbatim>\<open>normalizeValue\<close> is a function of its two arguments. An absent value and the empty
  string normalize to the empty string. For pt, the result is the value with every
  occurrence of \<^verbatim>\<open>pt-\<close> deleted and then every occurrence of \<^verbatim>\<open>contents-pt\<close> deleted; for
  prod, every occurrence of \<^verbatim>\<open>prod-\<close>, then of \<^verbatim>\<open>prd-\<close>, then of \<^verbatim>\<open>contents\<close> is deleted,
  each rule being applied to the result of the one before. In particular \<^verbatim>\<open>pt-svc\<close>
  normalizes to \<^verbatim>\<open>svc\<close> for pt and \<^verbatim>\<open>prod-svc\<close> to \<^verbatim>\<open>svc\<close> for prod.
\<close>

theorem normalizer_contract:
  "normalizeValue None isPt = []
   \<and> normalizeValue (Some []) isPt = []
   \<and> normalizeValue (Some v) True
       = spec_delete_occurrences ''contents-pt'' (spec_delete_occurrences ''pt-'' v)
   \<and> normalizeValue (Some v) False
       = spec_delete_occurrences ''contents''
           (spec_delete_occurrences ''prd-'' (spec_delete_occurrences ''prod-'' v))
   \<and> normalizeValue (Some ''pt-svc'') True = ''svc''
   \<and> normalizeValue (Some ''prod-svc'') False = ''svc''"
proof -
  have e: "spec_delete_occurrences pat [] = []" for pat
    by (simp add: spec_delete_occurrences_def)
  have a: "normalizeValue (Some v) True
       = spec_delete_occurrences ''contents-pt'' (spec_delete_occurrences ''pt-'' v)"
    by (cases "v = []")
       (simp_all add: normalizeValue_def patterns_of_def e
          replace_global_spec [OF unbordered_patterns(1), symmetric]
          replace_global_spec [OF unbordered_patterns(2), symmetric])
  have b: "normalizeValue (Some v) False
       = spec_delete_occurrences ''contents''
           (spec_delete_occurrences ''prd-'' (spec_delete_occurrences ''prod-'' v))"
    by (cases "v = []")
       (simp_all add: normalizeValue_def patterns_of_def e
          replace_global_spec [OF unbordered_patterns(3), symmetric]
          replace_global_spec [OF unbordered_patterns(4), symmetric]
          replace_global_spec [OF unbordered_patterns(5), symmetric])
  have c: "normalizeValue None isPt = []" "normalizeValue (Some []) isPt = []"
    by (simp_all add: normalizeValue_def)
  from a b c normalize_pt_svc normalize_prod_svc show ?thesis by blast
qed

section \<open>Properties of the runs\<close>

subsection \<open>Asynchronous computations and loops\<close>

lemma fst_io_bind:
  "fst (io_bind m f) = (case fst m of Inl e \<Rightarrow> Inl e | Inr x \<Rightarrow> fst (f x))"
  by (simp add: io_bind_def split: sum.splits)

lemma snd_io_bind:
  "snd (io_bind m f) = (case fst m of Inl e \<Rightarrow> snd m | Inr x \<Rightarrow> snd m @ snd (f x))"
  by (simp add: io_bind_def split: sum.splits)

lemma io_foldl_Inr:
  assumes "fst (io_foldl f s xs) = Inr s'"
    and "\<And>t x t'. x \<in> set xs \<Longrightarrow> fst (f t x) = Inr t' \<Longrightarrow> t' = g t x \<and> Q x"
  shows "s' = foldl g s xs \<and> (\<forall>x\<in>set xs. Q x)"
  using assms
proof (induction xs arbitrary: s)
  case Nil
  then show ?case by simp
next
  case (Cons x xs)
  from Cons.prems(1) obtain t where t: "fst (f s x) = Inr t"
    by (cases "fst (f s x)") auto
  with Cons.prems(1) have r: "fst (io_foldl f t xs) = Inr s'" by simp
  from Cons.prems(2) [of x s t] t have g: "t = g s x" "Q x" by simp_all
  from Cons.IH [OF r] Cons.prems(2) have "s' = foldl g t xs \<and> (\<forall>x\<in>set xs. Q x)"
    by simp
  with g show ?case by simp
qed

lemma io_foldl_calls:
  assumes "\<And>t x. x \<in> set xs \<Longrightarrow> \<forall>c\<in>set (snd (f t x)). P c"
  shows "\<forall>c\<in>set (snd (io_foldl f s xs)). P c"
  using assms
proof (induction xs arbitrary: s)
  case Nil
  show ?case by simp
next
  case (Cons x xs)
  have a: "\<forall>c\<in>set (snd (f s x)). P c" using Cons.prems [of x s] by simp
  have b: "\<forall>c\<in>set (snd (io_foldl f t xs)). P c" for t
  proof (rule Cons.IH)
    fix u y assume "y \<in> set xs"
    then show "\<forall>c\<in>set (snd (f u y)). P c" using Cons.prems [of y u] by simp
  qed
  show ?case using a b by (cases "fst (f s x)") auto
qed

subsection \<open>Folding conditional updates of an object\<close>

lemma map_of_foldl_update_other:
  assumes "\<And>x. x \<in> set xs \<Longrightarrow> c x \<Longrightarrow> k x \<noteq> n"
  shows "map_of (foldl (\<lambda>s x. if c x then AList.update (k x) (v x) s else s) s xs) n = map_of s n"
  using assms
  by (induction xs arbitrary: s) (auto simp: update_conv')

lemma map_of_foldl_update_unique:
  assumes "x \<in> set xs" and "\<And>y. y \<in> set xs \<Longrightarrow> k y = k x \<Longrightarrow> y = x"
  shows "map_of (foldl (\<lambda>s x. if c x then AList.update (k x) (v x) s else s) s xs) (k x)
           = (if c x then Some (v x) else map_of s (k x))"
  using assms
proof (induction xs arbitrary: s)
  case Nil
  then show ?case by simp
next
  case (Cons y ys)
  let ?step = "\<lambda>s x. if c x then AList.update (k x) (v x) s else s"
  show ?case
  proof (cases "x \<in> set ys")
    case True
    have u: "\<And>z. z \<in> set ys \<Longrightarrow> k z = k x \<Longrightarrow> z = x" using Cons.prems(2) by simp
    have "map_of (foldl ?step (?step s y) ys) (k x)
            = (if c x then Some (v x) else map_of (?step s y) (k x))"
      by (rule Cons.IH [OF True u])
    moreover have "\<not> c x \<Longrightarrow> map_of (?step s y) (k x) = map_of s (k x)"
      using Cons.prems(2) [of y] by (auto simp: update_conv')
    ultimately show ?thesis by simp
  next
    case False
    with Cons.prems(1) have yx: "y = x" by simp
    have "\<And>z. z \<in> set ys \<Longrightarrow> c z \<Longrightarrow> k z \<noteq> k x"
      using Cons.prems(2) False by auto
    then have "map_of (foldl ?step (?step s y) ys) (k x) = map_of (?step s y) (k x)"
      by (rule map_of_foldl_update_other)
    moreover have "map_of (?step s y) (k x) = (if c x then Some (v x) else map_of s (k x))"
      unfolding yx by (simp add: update_conv')
    ultimately show ?thesis by simp
  qed
qed

lemma keys_foldl_update:
  "fst ` set (foldl (\<lambda>s x. if c x then AList.update (k x) (v x) s else s) s xs)
     = fst ` set s \<union> k ` {x \<in> set xs. c x}"
  by (induction xs arbitrary: s) (auto simp: dom_update)

lemma distinct_foldl_update:
  "distinct (map fst s) \<Longrightarrow>
   distinct (map fst (foldl (\<lambda>s x. if c x then AList.update (k x) (v x) s else s) s xs))"
  by (induction xs arbitrary: s) (simp_all add: distinct_update)

lemma map_of_prune_fold:
  "map_of (foldl (\<lambda>res env. (case map_of res env of
                          None \<Rightarrow> res
                        | Some report \<Rightarrow> if map fst report = [] then AList.delete env res else res))
       res ks) e
   = (if e \<in> set ks \<and> map_of res e = Some [] then None else map_of res e)"
proof (induction ks arbitrary: res)
  case Nil
  show ?case by simp
next
  case (Cons k ks)
  show ?case
    by (cases "map_of res k") (auto simp: Cons.IH delete_conv')
qed

lemma distinct_prune_fold:
  "distinct (map fst res) \<Longrightarrow>
   distinct (map fst (foldl (\<lambda>res env. (case map_of res env of
                          None \<Rightarrow> res
                        | Some report \<Rightarrow> if map fst report = [] then AList.delete env res else res))
       res ks))"
proof (induction ks arbitrary: res)
  case Nil
  then show ?case by simp
next
  case (Cons k ks)
  then show ?case
    by (cases "map_of res k") (auto simp: distinct_delete)
qed

lemma map_of_prune_envs:
  "map_of (prune_envs envs) e = (if map_of envs e = Some [] then None else map_of envs e)"
proof -
  have "map_of envs e = Some [] \<Longrightarrow> e \<in> set (map fst envs)"
    by (metis map_of_eq_None_iff option.distinct(1) set_map)
  then show ?thesis
    unfolding prune_envs_def map_of_prune_fold by auto
qed

lemma distinct_prune_envs:
  "distinct (map fst envs) \<Longrightarrow> distinct (map fst (prune_envs envs))"
  unfolding prune_envs_def by (rule distinct_prune_fold)

lemma map_of_foldl_update_last:
  "map_of (foldl (\<lambda>s x. if c x then AList.update (k x) (v x) s else s) s xs) n
     = (case filter (\<lambda>x. k x = n \<and> c x) (rev xs) of
          [] \<Rightarrow> map_of s n
        | x # _ \<Rightarrow> Some (v x))"
proof (induction xs arbitrary: s)
  case Nil
  show ?case by simp
next
  case (Cons y ys)
  show ?case
    by (cases "filter (\<lambda>x. k x = n \<and> c x) (rev ys)") (auto simp: Cons.IH update_conv')
qed

subsection \<open>A run of check\_config.js that prints a result\<close>

lemma main_body_invalid:
  assumes "git_tags be = Inr tags" and "git_rev_list be = Inr commits"
    and "ref \<notin> set tags" and "ref \<notin> set (split_on (CHR 0x0A) commits)"
    and "ref = oldTag \<or> ref = newTag"
  shows "main_body be oldTag newTag = (Inl (InvalidRef [oldTag, newTag]), [GitTags, GitRevList])"
  using assms
  by (auto simp: main_body_def io_bind_def io_throw_def Let_def set_new_Set)

lemma fetch_ok_fetched:
  "fetch_ok be tag filePath \<Longrightarrow> fst (getFileContent be tag filePath) = Inr (fetched be tag filePath)"
  by (auto simp: fetch_ok_def fetched_def)

lemma file_step_Inr:
  assumes "fst (file_step be oldTag newTag report fullPath) = Inr report'"
  shows "report' = (if retained (file_diff_of be oldTag newTag fullPath)
                    then AList.update (path_basename be fullPath)
                           (file_diff_of be oldTag newTag fullPath) report
                    else report)
         \<and> (fetch_ok be oldTag fullPath \<and> fetch_ok be newTag fullPath)"
  using assms
  by (cases "fst (getFileContent be oldTag fullPath)"; cases "fst (getFileContent be newTag fullPath)")
     (auto simp: file_step_def fst_io_bind io_return_def Let_def fetch_ok_def fetched_def
        file_diff_of_def retained_def)

lemma files_loop_Inr:
  assumes "fst (io_foldl (file_step be oldTag newTag) report files) = Inr report'"
  shows "report' = foldl (\<lambda>report fullPath.
              if retained (file_diff_of be oldTag newTag fullPath)
              then AList.update (path_basename be fullPath)
                     (file_diff_of be oldTag newTag fullPath) report
              else report) report files
         \<and> (\<forall>fullPath\<in>set files. fetch_ok be oldTag fullPath \<and> fetch_ok be newTag fullPath)"
  by (rule io_foldl_Inr [OF assms]) (rule file_step_Inr)

lemma env_step_Inr:
  assumes "fst (env_step be oldTag newTag envs env) = Inr envs'"
  shows "envs' = (if True then AList.update env (env_report_of be oldTag newTag env) envs else envs)
         \<and> ((\<exists>listed. fst (listFiles be newTag (''config'' @ ''/'' @ env)) = Inr listed)
            \<and> (\<forall>fullPath\<in>set (env_files be newTag env).
                  fetch_ok be oldTag fullPath \<and> fetch_ok be newTag fullPath))"
proof (cases "fst (listFiles be newTag (''config'' @ ''/'' @ env))")
  case (Inl err)
  with assms show ?thesis by (simp add: env_step_def fst_io_bind)
next
  case (Inr listed)
  let ?files = "filter (\<lambda>f. suffix ''.properties'' f) listed"
  from assms Inr obtain report where
    r: "fst (io_foldl (file_step be oldTag newTag) [] ?files) = Inr report"
    and e: "envs' = AList.update env report envs"
    by (cases "fst (io_foldl (file_step be oldTag newTag) [] ?files)")
       (auto simp: env_step_def fst_io_bind io_return_def Let_def)
  have f: "env_files be newTag env = ?files" using Inr by (simp add: env_files_def)
  from files_loop_Inr [OF r] e f Inr show ?thesis
    by (simp add: env_report_of_def)
qed

lemma env_loop_Inr:
  assumes "fst (io_foldl (env_step be oldTag newTag) envs0 es) = Inr envs"
  shows "envs = foldl (\<lambda>envs env.
                   if True then AList.update env (env_report_of be oldTag newTag env) envs else envs)
                 envs0 es
         \<and> (\<forall>env\<in>set es.
              (\<exists>listed. fst (listFiles be newTag (''config'' @ ''/'' @ env)) = Inr listed)
              \<and> (\<forall>fullPath\<in>set (env_files be newTag env).
                    fetch_ok be oldTag fullPath \<and> fetch_ok be newTag fullPath))"
  by (rule io_foldl_Inr [OF assms]) (rule env_step_Inr)

lemma main_body_Inr:
  assumes "fst (main_body be oldTag newTag) = Inr result"
  shows "(case fst (listFiles be newTag ''config'') of
            Inl err \<Rightarrow> result = []
          | Inr allFiles \<Rightarrow>
              result = prune_envs (all_envs be oldTag newTag (envs_of be allFiles))
              \<and> (\<forall>env\<in>set (envs_of be allFiles).
                   (\<exists>listed. fst (listFiles be newTag (''config'' @ ''/'' @ env)) = Inr listed)
                   \<and> (\<forall>fullPath\<in>set (env_files be newTag env).
                         fetch_ok be oldTag fullPath \<and> fetch_ok be newTag fullPath)))"
proof (cases "fst (listFiles be newTag ''config'')")
  case (Inl err)
  with assms show ?thesis
    by (auto simp: main_body_def fst_io_bind io_throw_def Let_def
          split: sum.splits if_splits)
next
  case (Inr allFiles)
  with assms obtain envs where
    l: "fst (io_foldl (env_step be oldTag newTag) [] (envs_of be allFiles)) = Inr envs"
    and r: "result = prune_envs envs"
    by (auto simp: main_body_def fst_io_bind io_throw_def io_return_def Let_def
          split: sum.splits if_splits)
  from env_loop_Inr [OF l] r Inr show ?thesis
    by (simp add: all_envs_def)
qed

lemma check_config_stdout:
  assumes "stdout (check_config be (oldTag # newTag # rest)) = [result]"
  shows "fst (main_body be oldTag newTag) = Inr result"
  using assms
  by (auto simp: check_config_def main_def split: if_splits sum.splits)

lemma check_config_stdout_args:
  assumes "stdout (check_config be argv) = [result]"
  shows "\<exists>oldTag newTag rest. argv = oldTag # newTag # rest
           \<and> fst (main_body be oldTag newTag) = Inr result"
  using assms
  by (auto simp: check_config_def main_def split: if_splits sum.splits list.splits)

lemma map_of_all_envs:
  "map_of (all_envs be oldTag newTag es) env
     = (if env \<in> set es then Some (env_report_of be oldTag newTag env) else None)"
proof (cases "env \<in> set es")
  case True
  from map_of_foldl_update_unique [of env es "\<lambda>e. e" "\<lambda>e. True" "env_report_of be oldTag newTag" "[]"] True
  show ?thesis by (simp add: all_envs_def)
next
  case False
  from map_of_foldl_update_other [of es "\<lambda>e. True" "\<lambda>e. e" env "env_report_of be oldTag newTag" "[]"] False
  show ?thesis by (auto simp: all_envs_def)
qed

lemma distinct_all_envs: "distinct (map fst (all_envs be oldTag newTag es))"
  unfolding all_envs_def by (rule distinct_foldl_update) simp

lemma main_body_distinct:
  assumes "fst (main_body be oldTag newTag) = Inr result"
  shows "distinct (map fst result) \<and> map_of result env \<noteq> Some []"
proof (cases "fst (listFiles be newTag ''config'')")
  case (Inl err)
  with main_body_Inr [OF assms] show ?thesis by simp
next
  case (Inr allFiles)
  with main_body_Inr [OF assms]
  have "result = prune_envs (all_envs be oldTag newTag (envs_of be allFiles))" by simp
  then show ?thesis
    by (simp add: distinct_prune_envs distinct_all_envs map_of_prune_envs)
qed

lemma report_lookup_prune:
  "report_lookup (prune_envs envs) env fileName = report_lookup envs env fileName"
  by (auto simp: report_lookup_def map_of_prune_envs split: option.splits)

lemma report_lookup_result:
  assumes "fst (main_body be oldTag newTag) = Inr result"
    and "fst (listFiles be newTag ''config'') = Inr allFiles"
  shows "report_lookup result env fileName
           = (if env \<in> set (envs_of be allFiles)
              then map_of (env_report_of be oldTag newTag env) fileName else None)"
proof -
  from main_body_Inr [OF assms(1)] assms(2)
  have "result = prune_envs (all_envs be oldTag newTag (envs_of be allFiles))" by simp
  then show ?thesis
    by (simp add: report_lookup_prune) (simp add: report_lookup_def map_of_all_envs)
qed

lemma temporal_retention:
  assumes "stdout (check_config be (oldTag # newTag # rest)) = [result]"
    and "fst (listFiles be newTag ''config'') = Inr allFiles"
    and "env \<in> set (envs_of be allFiles)"
    and "fst (listFiles be newTag (''config'' @ ''/'' @ env)) = Inr listed"
    and "fullPath \<in> set listed" and "suffix ''.properties'' fullPath"
    and "\<forall>other\<in>set listed. suffix ''.properties'' other
            \<and> path_basename be other = path_basename be fullPath \<longrightarrow> other = fullPath"
  shows "\<exists>oldContent newContent.
          fst (getFileContent be oldTag fullPath) = Inr oldContent
          \<and> fst (getFileContent be newTag fullPath) = Inr newContent
          \<and> report_lookup result env (path_basename be fullPath)
              = (if computeDiffs oldContent newContent \<noteq> [] \<or> oldContent = None \<or> newContent = None
                 then Some \<lparr>f_old = oldContent, f_new = newContent,
                            f_diffs = computeDiffs oldContent newContent\<rparr>
                 else None)"
proof -
  note m = check_config_stdout [OF assms(1)]
  have f: "env_files be newTag env = filter (\<lambda>f. suffix ''.properties'' f) listed"
    using assms(4) by (simp add: env_files_def)
  then have p: "fullPath \<in> set (env_files be newTag env)"
    using assms(5,6) by simp
  from main_body_Inr [OF m] assms(2,3) p
  have ok: "fetch_ok be oldTag fullPath" "fetch_ok be newTag fullPath" by auto
  have u: "\<And>other. other \<in> set (env_files be newTag env) \<Longrightarrow>
             path_basename be other = path_basename be fullPath \<Longrightarrow> other = fullPath"
    using assms(7) f by auto
  have "report_lookup result env (path_basename be fullPath)
          = map_of (env_report_of be oldTag newTag env) (path_basename be fullPath)"
    using report_lookup_result [OF m assms(2)] assms(3) by simp
  also have "\<dots> = (if retained (file_diff_of be oldTag newTag fullPath)
                    then Some (file_diff_of be oldTag newTag fullPath) else None)"
    unfolding env_report_of_def
    using map_of_foldl_update_unique
      [of fullPath "env_files be newTag env" "path_basename be"
          "\<lambda>p. retained (file_diff_of be oldTag newTag p)" "file_diff_of be oldTag newTag" "[]",
       OF p u]
    by simp
  finally have "report_lookup result env (path_basename be fullPath)
      = (if retained (file_diff_of be oldTag newTag fullPath)
         then Some (file_diff_of be oldTag newTag fullPath) else None)" .
  then have "report_lookup result env (path_basename be fullPath)
      = (if computeDiffs (fetched be oldTag fullPath) (fetched be newTag fullPath) \<noteq> []
            \<or> fetched be oldTag fullPath = None \<or> fetched be newTag fullPath = None
         then Some \<lparr>f_old = fetched be oldTag fullPath, f_new = fetched be newTag fullPath,
                    f_diffs = computeDiffs (fetched be oldTag fullPath) (fetched be newTag fullPath)\<rparr>
         else None)"
    by (simp add: retained_def file_diff_of_def)
  with fetch_ok_fetched [OF ok(1)] fetch_ok_fetched [OF ok(2)] show ?thesis by blast
qed

lemma temporal_last_retained:
  assumes "stdout (check_config be (oldTag # newTag # rest)) = [result]"
    and "fst (listFiles be newTag ''config'') = Inr allFiles"
    and "env \<in> set (envs_of be allFiles)"
    and "fst (listFiles be newTag (''config'' @ ''/'' @ env)) = Inr listed"
  shows "report_lookup result env fileName
           = (case filter (\<lambda>q. path_basename be q = fileName
                                 \<and> retained (file_diff_of be oldTag newTag q))
                     (rev (filter (\<lambda>f. suffix ''.properties'' f) listed)) of
                [] \<Rightarrow> None
              | q # _ \<Rightarrow> Some (file_diff_of be oldTag newTag q))"
    and "\<forall>fullPath\<in>set (filter (\<lambda>f. suffix ''.properties'' f) listed).
           fst (getFileContent be oldTag fullPath) = Inr (fetched be oldTag fullPath)
           \<and> fst (getFileContent be newTag fullPath) = Inr (fetched be newTag fullPath)"
proof -
  note m = check_config_stdout [OF assms(1)]
  have f: "env_files be newTag env = filter (\<lambda>f. suffix ''.properties'' f) listed"
    using assms(4) by (simp add: env_files_def)
  have "report_lookup result env fileName
          = map_of (env_report_of be oldTag newTag env) fileName"
    using report_lookup_result [OF m assms(2)] assms(3) by simp
  also have "\<dots> = (case filter (\<lambda>q. path_basename be q = fileName
                                 \<and> retained (file_diff_of be oldTag newTag q))
                     (rev (env_files be newTag env)) of
                [] \<Rightarrow> None
              | q # _ \<Rightarrow> Some (file_diff_of be oldTag newTag q))"
    unfolding env_report_of_def map_of_foldl_update_last by (simp cong: list.case_cong)
  finally show "report_lookup result env fileName
           = (case filter (\<lambda>q. path_basename be q = fileName
                                 \<and> retained (file_diff_of be oldTag newTag q))
                     (rev (filter (\<lambda>f. suffix ''.properties'' f) listed)) of
                [] \<Rightarrow> None
              | q # _ \<Rightarrow> Some (file_diff_of be oldTag newTag q))"
    by (simp add: f)
  from main_body_Inr [OF m] assms(2,3)
  have "\<forall>fullPath\<in>set (env_files be newTag env).
          fetch_ok be oldTag fullPath \<and> fetch_ok be newTag fullPath"
    by auto
  then show "\<forall>fullPath\<in>set (filter (\<lambda>f. suffix ''.properties'' f) listed).
           fst (getFileContent be oldTag fullPath) = Inr (fetched be oldTag fullPath)
           \<and> fst (getFileContent be newTag fullPath) = Inr (fetched be newTag fullPath)"
    unfolding f by (auto dest: fetch_ok_fetched)
qed

lemma temporal_only_if:
  assumes "stdout (check_config be (oldTag # newTag # rest)) = [result]"
    and "fst (listFiles be newTag ''config'') = Inr allFiles"
    and "env \<in> set (envs_of be allFiles)"
    and "fst (listFiles be newTag (''config'' @ ''/'' @ env)) = Inr listed"
    and "report_lookup result env fileName = Some fd"
  shows "retained fd"
proof -
  let ?rs = "filter (\<lambda>q. path_basename be q = fileName
                                 \<and> retained (file_diff_of be oldTag newTag q))
                     (rev (filter (\<lambda>f. suffix ''.properties'' f) listed))"
  from temporal_last_retained(1) [OF assms(1-4), of fileName] assms(5)
  obtain q qs where q: "?rs = q # qs" "fd = file_diff_of be oldTag newTag q"
    by (cases ?rs) auto
  from q(1) have "q \<in> set ?rs" by simp
  then have "retained (file_diff_of be oldTag newTag q)" by simp
  with q(2) show ?thesis by simp
qed

lemma temporal_if:
  assumes "stdout (check_config be (oldTag # newTag # rest)) = [result]"
    and "fst (listFiles be newTag ''config'') = Inr allFiles"
    and "env \<in> set (envs_of be allFiles)"
    and "fst (listFiles be newTag (''config'' @ ''/'' @ env)) = Inr listed"
    and "filter (\<lambda>f. suffix ''.properties'' f) listed = before @ fullPath # after"
    and "\<forall>other\<in>set after. path_basename be other = path_basename be fullPath
            \<longrightarrow> \<not> retained (file_diff_of be oldTag newTag other)"
    and "retained (file_diff_of be oldTag newTag fullPath)"
  shows "report_lookup result env (path_basename be fullPath)
           = Some (file_diff_of be oldTag newTag fullPath)"
proof -
  have "filter (\<lambda>q. path_basename be q = path_basename be fullPath
                      \<and> retained (file_diff_of be oldTag newTag q)) (rev after) = []"
    using assms(6) by (auto simp: filter_empty_conv)
  then show ?thesis
    unfolding temporal_last_retained(1) [OF assms(1-4)] assms(5)
    using assms(7) by simp
qed

subsection \<open>The calls of check\_config.js\<close>

lemma snd_listFiles: "snd (listFiles be tag dir) = [GitLsTree tag dir]"
  by (simp add: listFiles_def split: sum.splits)

lemma snd_getFileContent: "snd (getFileContent be tag filePath) = [GitShow (tag @ '':'' @ filePath)]"
  by (simp add: getFileContent_def split: sum.splits)

lemma file_step_calls:
  "\<forall>c\<in>set (snd (file_step be oldTag newTag report fullPath)). lists_at newTag c"
  by (auto simp: file_step_def snd_io_bind snd_getFileContent io_return_def Let_def lists_at_def
        split: sum.splits)

lemma env_step_calls:
  "\<forall>c\<in>set (snd (env_step be oldTag newTag envs env)). lists_at newTag c"
proof -
  have l: "\<forall>c\<in>set (snd (io_foldl (file_step be oldTag newTag) [] files)). lists_at newTag c"
    for files
    by (rule io_foldl_calls) (rule file_step_calls)
  have "lists_at newTag (GitLsTree newTag dir)" for dir by (simp add: lists_at_def)
  with l show ?thesis
    by (auto simp: env_step_def snd_io_bind snd_listFiles io_return_def Let_def
          split: sum.splits)
qed

lemma main_body_calls:
  "\<forall>c\<in>set (snd (main_body be oldTag newTag)). lists_at newTag c"
proof -
  have l: "\<forall>c\<in>set (snd (io_foldl (env_step be oldTag newTag) [] es)). lists_at newTag c" for es
    by (rule io_foldl_calls) (rule env_step_calls)
  have g: "lists_at newTag (GitLsTree newTag dir)" "lists_at newTag GitTags"
    "lists_at newTag GitRevList" for dir
    by (simp_all add: lists_at_def)
  show ?thesis
    using l g
    by (auto simp: main_body_def snd_io_bind fst_io_bind snd_listFiles io_return_def
          io_throw_def Let_def split: sum.splits if_splits)
qed

lemma check_config_calls:
  "c \<in> set (calls (check_config be (oldTag # newTag # rest))) \<Longrightarrow> lists_at newTag c"
  using main_body_calls [of be oldTag newTag]
  by (auto simp: check_config_def main_def split: if_splits sum.splits)

subsection \<open>A run of compare\_envs.js that prints a result\<close>

lemma env_body_invalid:
  assumes "git_tags be = Inr tags" and "git_rev_list be = Inr commits"
    and "ref \<notin> set tags" and "ref \<notin> set (split_on (CHR 0x0A) commits)"
  shows "env_body be ref = (Inl (InvalidRef [ref]), [GitTags, GitRevList])"
  using assms
  by (auto simp: env_body_def io_bind_def io_throw_def Let_def set_new_Set)

lemma compare_envs_stdout:
  assumes "stdout (compare_envs be (tag # rest)) = [result]"
    and "fst (env_body be tag) = Inr (pt_files, prod_files)"
  shows "result = foldl (compare_step (case rest of [] \<Rightarrow> ''true'' | filter_arg # _ \<Rightarrow> filter_arg)
                           pt_files prod_files) []
                    (new_Set (map fst pt_files @ map fst prod_files))"
  using assms
  by (auto simp: compare_envs_def main_env_def Let_def split: if_splits sum.splits list.splits)

lemma compare_envs_stdout_body:
  assumes "stdout (compare_envs be (tag # rest)) = [result]"
  shows "\<exists>pt_files prod_files. fst (env_body be tag) = Inr (pt_files, prod_files)"
  using assms
  by (auto simp: compare_envs_def main_env_def Let_def split: if_splits sum.splits list.splits)

lemma map_of_compare_fold:
  "map_of (foldl (compare_step filter_arg pt_files prod_files) [] names) fileName
   = (if fileName \<in> set names
         \<and> (computeDiffs_env (or_null (map_of pt_files fileName)) (or_null (map_of prod_files fileName))
              (filter_arg = ''true'') \<noteq> []
            \<or> or_null (map_of pt_files fileName) = None
            \<or> or_null (map_of prod_files fileName) = None)
      then Some \<lparr>x_pt = or_null (map_of pt_files fileName),
                x_prod = or_null (map_of prod_files fileName),
                x_diffs = computeDiffs_env (or_null (map_of pt_files fileName))
                            (or_null (map_of prod_files fileName)) (filter_arg = ''true'')\<rparr>
      else None)"
proof -
  define c where "c = (\<lambda>n. computeDiffs_env (or_null (map_of pt_files n)) (or_null (map_of prod_files n))
              (filter_arg = ''true'') \<noteq> []
            \<or> or_null (map_of pt_files n) = None
            \<or> or_null (map_of prod_files n) = None)"
  define v where "v = (\<lambda>n. \<lparr>x_pt = or_null (map_of pt_files n),
                x_prod = or_null (map_of prod_files n),
                x_diffs = computeDiffs_env (or_null (map_of pt_files n))
                            (or_null (map_of prod_files n)) (filter_arg = ''true'')\<rparr>)"
  have s: "compare_step filter_arg pt_files prod_files
             = (\<lambda>s x. if c x then AList.update ((\<lambda>n. n) x) (v x) s else s)"
    by (intro ext) (simp add: compare_step_def Let_def c_def v_def)
  have "map_of (foldl (compare_step filter_arg pt_files prod_files) [] names) fileName
          = (if fileName \<in> set names \<and> c fileName then Some (v fileName) else None)"
  proof (cases "fileName \<in> set names")
    case True
    have "map_of (foldl (\<lambda>s x. if c x then AList.update ((\<lambda>n. n) x) (v x) s else s) [] names)
            ((\<lambda>n. n) fileName)
          = (if c fileName then Some (v fileName) else map_of [] ((\<lambda>n. n) fileName))"
      by (rule map_of_foldl_update_unique [OF True]) simp
    then show ?thesis using True by (simp add: s)
  next
    case False
    have "map_of (foldl (\<lambda>s x. if c x then AList.update ((\<lambda>n. n) x) (v x) s else s) [] names)
            fileName = map_of [] fileName"
      by (rule map_of_foldl_update_other) (use False in auto)
    then show ?thesis using False by (simp add: s)
  qed
  then show ?thesis by (simp add: c_def v_def)
qed

lemma cross_retention:
  assumes "stdout (compare_envs be (tag # rest)) = [result]"
    and "fst (env_body be tag) = Inr (pt_files, prod_files)"
  shows "map_of result fileName
     = (if fileName \<in> set (map fst pt_files) \<union> set (map fst prod_files)
           \<and> (computeDiffs_env (or_null (map_of pt_files fileName))
                 (or_null (map_of prod_files fileName)) (rest = [] \<or> hd rest = ''true'') \<noteq> []
              \<or> or_null (map_of pt_files fileName) = None
              \<or> or_null (map_of prod_files fileName) = None)
        then Some \<lparr>x_pt = or_null (map_of pt_files fileName),
                   x_prod = or_null (map_of prod_files fileName),
                   x_diffs = computeDiffs_env (or_null (map_of pt_files fileName))
                               (or_null (map_of prod_files fileName))
                               (rest = [] \<or> hd rest = ''true'')\<rparr>
        else None)"
proof -
  have f: "((case rest of [] \<Rightarrow> ''true'' | filter_arg # _ \<Rightarrow> filter_arg) = ''true'')
             = (rest = [] \<or> hd rest = ''true'')"
    by (cases rest) simp_all
  show ?thesis
    unfolding compare_envs_stdout [OF assms] map_of_compare_fold f
    by (simp add: set_new_Set)
qed

subsection \<open>The runs on the example repositories\<close>

lemma str_includes_append: "str_includes (a @ sub @ b) sub"
proof -
  have "prefix sub (drop (length a) (a @ sub @ b))" by simp
  moreover have "length a \<in> set [0..<Suc (length (a @ sub @ b))]" by simp
  ultimately show ?thesis unfolding str_includes_def list_ex_iff by blast
qed

lemma str_includes_not_in_revision: "str_includes not_in_revision ''exists on disk, but not in''"
  unfolding not_in_revision_def by (rule str_includes_append)

lemma example_list_config:
  "listFiles example_repo ''v2'' ''config''
   = (Inr [''config/dev/y.properties'', ''config/pt/a/x.properties'',
           ''config/pt/b/x.properties'', ''config/pt/z.properties''],
      [GitLsTree ''v2'' ''config''])"
  by (simp add: listFiles_def example_repo_def unlines_def trim_def white_space_def)

lemma example_list_dev:
  "listFiles example_repo ''v2'' ''config/dev''
   = (Inr [''config/dev/y.properties''], [GitLsTree ''v2'' ''config/dev''])"
  by (simp add: listFiles_def example_repo_def unlines_def trim_def white_space_def)

lemma example_list_pt:
  "listFiles example_repo ''v2'' ''config/pt''
   = (Inr [''config/pt/a/x.properties'', ''config/pt/b/x.properties'', ''config/pt/z.properties''],
      [GitLsTree ''v2'' ''config/pt''])"
  by (simp add: listFiles_def example_repo_def unlines_def trim_def white_space_def)

lemma example_envs_of:
  "envs_of example_repo [''config/dev/y.properties'', ''config/pt/a/x.properties'',
           ''config/pt/b/x.properties'', ''config/pt/z.properties''] = [''dev'', ''pt'']"
  by (simp add: envs_of_def example_repo_def posix_dirname_def posix_relative_def new_Set_def
        set_add_def)

lemma example_show:
  "getFileContent example_repo ''v1'' ''config/dev/y.properties''
     = (Inr (Some [(''k'', ''1'')]), [GitShow ''v1:config/dev/y.properties''])"
  "getFileContent example_repo ''v2'' ''config/dev/y.properties''
     = (Inr (Some [(''k'', ''1'')]), [GitShow ''v2:config/dev/y.properties''])"
  "getFileContent example_repo ''v1'' ''config/pt/a/x.properties''
     = (Inr (Some [(''k'', ''1'')]), [GitShow ''v1:config/pt/a/x.properties''])"
  "getFileContent example_repo ''v2'' ''config/pt/a/x.properties''
     = (Inr (Some [(''k'', ''2'')]), [GitShow ''v2:config/pt/a/x.properties''])"
  "getFileContent example_repo ''v1'' ''config/pt/b/x.properties''
     = (Inr (Some [(''k'', ''1'')]), [GitShow ''v1:config/pt/b/x.properties''])"
  "getFileContent example_repo ''v2'' ''config/pt/b/x.properties''
     = (Inr (Some [(''k'', ''3'')]), [GitShow ''v2:config/pt/b/x.properties''])"
  "getFileContent example_repo ''v1'' ''config/pt/z.properties''
     = (Inr None, [GitShow ''v1:config/pt/z.properties''])"
  "getFileContent example_repo ''v2'' ''config/pt/z.properties''
     = (Inr (Some [(''k'', ''1'')]), [GitShow ''v2:config/pt/z.properties''])"
  by (simp_all add: getFileContent_def example_repo_def example_parse_def
        str_includes_not_in_revision)

lemma example_diffs:
  "computeDiffs (Some [(''k'', ''1'')]) (Some [(''k'', ''1'')]) = []"
  "computeDiffs (Some [(''k'', ''1'')]) (Some [(''k'', ''2'')])
     = [\<lparr>d_key = ''k'', d_old = Some ''1'', d_new = Some ''2'', d_type = ''changed''\<rparr>]"
  "computeDiffs (Some [(''k'', ''1'')]) (Some [(''k'', ''3'')])
     = [\<lparr>d_key = ''k'', d_old = Some ''1'', d_new = Some ''3'', d_type = ''changed''\<rparr>]"
  "computeDiffs None (Some [(''k'', ''1'')])
     = [\<lparr>d_key = ''k'', d_old = None, d_new = Some ''1'', d_type = ''added''\<rparr>]"
  by (simp_all add: computeDiffs_def new_Set_def set_add_def keys_or_empty_def diff_visit_def
        value_of_def)

lemma example_basenames:
  "path_basename example_repo ''config/dev/y.properties'' = ''y.properties''"
  "path_basename example_repo ''config/pt/a/x.properties'' = ''x.properties''"
  "path_basename example_repo ''config/pt/b/x.properties'' = ''x.properties''"
  "path_basename example_repo ''config/pt/z.properties'' = ''z.properties''"
  by (simp_all add: example_repo_def posix_basename_def)

lemma example_file_steps:
  "file_step example_repo ''v1'' ''v2'' report ''config/dev/y.properties''
     = (Inr report, [GitShow ''v1:config/dev/y.properties'', GitShow ''v2:config/dev/y.properties''])"
  "file_step example_repo ''v1'' ''v2'' report ''config/pt/a/x.properties''
     = (Inr (AList.update ''x.properties''
              \<lparr>f_old = Some [(''k'', ''1'')], f_new = Some [(''k'', ''2'')],
               f_diffs = [\<lparr>d_key = ''k'', d_old = Some ''1'', d_new = Some ''2'',
                           d_type = ''changed''\<rparr>]\<rparr> report),
        [GitShow ''v1:config/pt/a/x.properties'', GitShow ''v2:config/pt/a/x.properties''])"
  "file_step example_repo ''v1'' ''v2'' report ''config/pt/b/x.properties''
     = (Inr (AList.update ''x.properties''
              \<lparr>f_old = Some [(''k'', ''1'')], f_new = Some [(''k'', ''3'')],
               f_diffs = [\<lparr>d_key = ''k'', d_old = Some ''1'', d_new = Some ''3'',
                           d_type = ''changed''\<rparr>]\<rparr> report),
        [GitShow ''v1:config/pt/b/x.properties'', GitShow ''v2:config/pt/b/x.properties''])"
  "file_step example_repo ''v1'' ''v2'' report ''config/pt/z.properties''
     = (Inr (AList.update ''z.properties''
              \<lparr>f_old = None, f_new = Some [(''k'', ''1'')],
               f_diffs = [\<lparr>d_key = ''k'', d_old = None, d_new = Some ''1'',
                           d_type = ''added''\<rparr>]\<rparr> report),
        [GitShow ''v1:config/pt/z.properties'', GitShow ''v2:config/pt/z.properties''])"
  by (simp_all add: file_step_def io_bind_def io_return_def example_show example_diffs
        example_basenames)

lemma example_env_steps:
  "env_step example_repo ''v1'' ''v2'' envs ''dev''
     = (Inr (AList.update ''dev'' [] envs),
        [GitLsTree ''v2'' ''config/dev'',
         GitShow ''v1:config/dev/y.properties'', GitShow ''v2:config/dev/y.properties''])"
  "env_step example_repo ''v1'' ''v2'' envs ''pt''
     = (Inr (AList.update ''pt''
          [(''x.properties'',
             \<lparr>f_old = Some [(''k'', ''1'')], f_new = Some [(''k'', ''3'')],
              f_diffs = [\<lparr>d_key = ''k'', d_old = Some ''1'', d_new = Some ''3'', d_type = ''changed''\<rparr>]\<rparr>),
           (''z.properties'',
             \<lparr>f_old = None, f_new = Some [(''k'', ''1'')],
              f_diffs = [\<lparr>d_key = ''k'', d_old = None, d_new = Some ''1'', d_type = ''added''\<rparr>]\<rparr>)]
          envs),
        [GitLsTree ''v2'' ''config/pt'',
         GitShow ''v1:config/pt/a/x.properties'', GitShow ''v2:config/pt/a/x.properties'',
         GitShow ''v1:config/pt/b/x.properties'', GitShow ''v2:config/pt/b/x.properties'',
         GitShow ''v1:config/pt/z.properties'', GitShow ''v2:config/pt/z.properties''])"
  by (simp_all add: env_step_def io_bind_def io_return_def example_list_dev example_list_pt
        example_file_steps suffix_to_prefix)

lemma example_main_body:
  "main_body example_repo ''v1'' ''v2''
   = (Inr [(''pt'',
          [(''x.properties'',
             \<lparr>f_old = Some [(''k'', ''1'')], f_new = Some [(''k'', ''3'')],
              f_diffs = [\<lparr>d_key = ''k'', d_old = Some ''1'', d_new = Some ''3'', d_type = ''changed''\<rparr>]\<rparr>),
           (''z.properties'',
             \<lparr>f_old = None, f_new = Some [(''k'', ''1'')],
              f_diffs = [\<lparr>d_key = ''k'', d_old = None, d_new = Some ''1'', d_type = ''added''\<rparr>]\<rparr>)])],
      [GitTags, GitRevList, GitLsTree ''v2'' ''config'', GitLsTree ''v2'' ''config/dev'',
               GitShow ''v1:config/dev/y.properties'', GitShow ''v2:config/dev/y.properties'',
               GitLsTree ''v2'' ''config/pt'',
               GitShow ''v1:config/pt/a/x.properties'', GitShow ''v2:config/pt/a/x.properties'',
               GitShow ''v1:config/pt/b/x.properties'', GitShow ''v2:config/pt/b/x.properties'',
               GitShow ''v1:config/pt/z.properties'', GitShow ''v2:config/pt/z.properties''])"
proof -
  have t: "git_tags example_repo = Inr [''v1'', ''v2'']"
    "git_rev_list example_repo = Inr (unlines [''c0ffee''])"
    by (simp_all add: example_repo_def)
  show ?thesis
    by (simp add: main_body_def io_bind_def io_return_def t Let_def set_new_Set unlines_def
          example_list_config example_envs_of example_env_steps prune_envs_def)
qed

lemma example_run:
  "check_config example_repo [''v1'', ''v2'']
   = \<lparr>exit_code = 0,
      stdout = [[(''pt'',
          [(''x.properties'',
             \<lparr>f_old = Some [(''k'', ''1'')], f_new = Some [(''k'', ''3'')],
              f_diffs = [\<lparr>d_key = ''k'', d_old = Some ''1'', d_new = Some ''3'', d_type = ''changed''\<rparr>]\<rparr>),
           (''z.properties'',
             \<lparr>f_old = None, f_new = Some [(''k'', ''1'')],
              f_diffs = [\<lparr>d_key = ''k'', d_old = None, d_new = Some ''1'', d_type = ''added''\<rparr>]\<rparr>)])]],
      stderr = [],
      calls = [GitTags, GitRevList, GitLsTree ''v2'' ''config'', GitLsTree ''v2'' ''config/dev'',
               GitShow ''v1:config/dev/y.properties'', GitShow ''v2:config/dev/y.properties'',
               GitLsTree ''v2'' ''config/pt'',
               GitShow ''v1:config/pt/a/x.properties'', GitShow ''v2:config/pt/a/x.properties'',
               GitShow ''v1:config/pt/b/x.properties'', GitShow ''v2:config/pt/b/x.properties'',
               GitShow ''v1:config/pt/z.properties'', GitShow ''v2:config/pt/z.properties'']\<rparr>"
  by (simp add: check_config_def main_def example_main_body)

lemma example_stdout: "stdout (check_config example_repo [''v1'', ''v2'']) = [example_report]"
  by (simp add: example_run example_report_def)

lemma example_envs_list:
  "listFiles_env example_envs ''v2'' ''config/pt''
     = (Inr [''config/pt/h.properties'', ''config/pt/m.properties'',
             ''config/pt/only.properties'', ''config/pt/same.properties''],
        [GitLsTree ''v2'' ''config/pt''])"
  "listFiles_env example_envs ''v2'' ''config/prod''
     = (Inr [''config/prod/h.properties'', ''config/prod/m.properties'',
             ''config/prod/same.properties''],
        [GitLsTree ''v2'' ''config/prod''])"
  by (simp_all add: listFiles_env_def example_envs_def example_repo_def unlines_def trim_def
        white_space_def)

lemma example_envs_content_steps:
  "content_step example_envs ''v2'' contents ''config/pt/h.properties''
     = (Inr (AList.update ''h.properties'' (Some [(''host'', ''pt-svc'')]) contents),
        [GitShow ''v2:config/pt/h.properties''])"
  "content_step example_envs ''v2'' contents ''config/pt/m.properties''
     = (Inr (AList.update ''m.properties'' (Some [(''host'', ''pt-svc''), (''port'', ''1'')])
               contents),
        [GitShow ''v2:config/pt/m.properties''])"
  "content_step example_envs ''v2'' contents ''config/pt/only.properties''
     = (Inr (AList.update ''only.properties'' (Some [(''k'', ''2'')]) contents),
        [GitShow ''v2:config/pt/only.properties''])"
  "content_step example_envs ''v2'' contents ''config/pt/same.properties''
     = (Inr (AList.update ''same.properties'' (Some [(''k'', ''1'')]) contents),
        [GitShow ''v2:config/pt/same.properties''])"
  "content_step example_envs ''v2'' contents ''config/prod/h.properties''
     = (Inr (AList.update ''h.properties'' (Some [(''host'', ''prod-svc'')]) contents),
        [GitShow ''v2:config/prod/h.properties''])"
  "content_step example_envs ''v2'' contents ''config/prod/m.properties''
     = (Inr (AList.update ''m.properties'' (Some [(''host'', ''prod-svc''), (''port'', ''2'')])
               contents),
        [GitShow ''v2:config/prod/m.properties''])"
  "content_step example_envs ''v2'' contents ''config/prod/same.properties''
     = (Inr (AList.update ''same.properties'' (Some [(''k'', ''1'')]) contents),
        [GitShow ''v2:config/prod/same.properties''])"
  by (simp_all add: content_step_def io_bind_def io_return_def getFileContent_def
        example_envs_def example_repo_def example_parse_def posix_basename_def unlines_def)

lemma example_envs_load:
  "load_env example_envs ''v2'' ''pt''
     = (Inr example_pt,
        [GitLsTree ''v2'' ''config/pt'', GitShow ''v2:config/pt/h.properties'',
         GitShow ''v2:config/pt/m.properties'', GitShow ''v2:config/pt/only.properties'',
         GitShow ''v2:config/pt/same.properties''])"
  "load_env example_envs ''v2'' ''prod''
     = (Inr example_prod,
        [GitLsTree ''v2'' ''config/prod'', GitShow ''v2:config/prod/h.properties'',
         GitShow ''v2:config/prod/m.properties'', GitShow ''v2:config/prod/same.properties''])"
  by (simp_all add: load_env_def io_bind_def example_envs_list example_envs_content_steps
        suffix_to_prefix example_pt_def example_prod_def)

lemma example_envs_body:
  "fst (env_body example_envs ''v2'') = Inr (example_pt, example_prod)"
proof -
  have t: "git_tags example_envs = Inr [''v1'', ''v2'']"
    "git_rev_list example_envs = Inr (unlines [''c0ffee''])"
    by (simp_all add: example_envs_def example_repo_def)
  show ?thesis
    by (simp add: env_body_def io_bind_def io_return_def t Let_def set_new_Set unlines_def
          example_envs_load)
qed

lemma example_envs_access:
  "fs_access example_envs p"
  by (simp add: example_envs_def example_repo_def)

lemma example_envs_names:
  "new_Set (map fst example_pt @ map fst example_prod)
     = [''h.properties'', ''m.properties'', ''only.properties'', ''same.properties'']"
  by (simp add: example_pt_def example_prod_def new_Set_def set_add_def)

lemma example_envs_diffs:
  "computeDiffs_env (Some [(''host'', ''pt-svc'')]) (Some [(''host'', ''prod-svc'')]) True = []"
  "computeDiffs_env (Some [(''host'', ''pt-svc'')]) (Some [(''host'', ''prod-svc'')]) False
     = [\<lparr>e_key = ''host'', e_pt = Some ''pt-svc'', e_prod = Some ''prod-svc'',
         e_type = ''changed''\<rparr>]"
  "computeDiffs_env (Some [(''host'', ''pt-svc''), (''port'', ''1'')])
     (Some [(''host'', ''prod-svc''), (''port'', ''2'')]) True
     = [\<lparr>e_key = ''port'', e_pt = Some ''1'', e_prod = Some ''2'', e_type = ''changed''\<rparr>]"
  "computeDiffs_env (Some [(''host'', ''pt-svc''), (''port'', ''1'')])
     (Some [(''host'', ''prod-svc''), (''port'', ''2'')]) False
     = [\<lparr>e_key = ''host'', e_pt = Some ''pt-svc'', e_prod = Some ''prod-svc'',
         e_type = ''changed''\<rparr>,
        \<lparr>e_key = ''port'', e_pt = Some ''1'', e_prod = Some ''2'', e_type = ''changed''\<rparr>]"
  "computeDiffs_env (Some [(''k'', ''2'')]) None flag
     = [\<lparr>e_key = ''k'', e_pt = Some ''2'', e_prod = None, e_type = ''added_in_pt''\<rparr>]"
  "computeDiffs_env (Some [(''k'', ''1'')]) (Some [(''k'', ''1'')]) flag = []"
  by (simp_all add: computeDiffs_env_def new_Set_def set_add_def keys_or_empty_def env_visit_def
        value_of_def shouldIgnore_def normalizeValue_def patterns_of_def Let_def)

lemma example_envs_steps:
  "compare_step ''true'' example_pt example_prod result_diffs ''h.properties'' = result_diffs"
  "compare_step ''false'' example_pt example_prod result_diffs ''h.properties''
     = AList.update ''h.properties''
         \<lparr>x_pt = Some [(''host'', ''pt-svc'')], x_prod = Some [(''host'', ''prod-svc'')],
          x_diffs = [\<lparr>e_key = ''host'', e_pt = Some ''pt-svc'', e_prod = Some ''prod-svc'',
                      e_type = ''changed''\<rparr>]\<rparr> result_diffs"
  "compare_step ''true'' example_pt example_prod result_diffs ''m.properties''
     = AList.update ''m.properties''
         \<lparr>x_pt = Some [(''host'', ''pt-svc''), (''port'', ''1'')],
          x_prod = Some [(''host'', ''prod-svc''), (''port'', ''2'')],
          x_diffs = [\<lparr>e_key = ''port'', e_pt = Some ''1'', e_prod = Some ''2'',
                      e_type = ''changed''\<rparr>]\<rparr> result_diffs"
  "compare_step ''false'' example_pt example_prod result_diffs ''m.properties''
     = AList.update ''m.properties''
         \<lparr>x_pt = Some [(''host'', ''pt-svc''), (''port'', ''1'')],
          x_prod = Some [(''host'', ''prod-svc''), (''port'', ''2'')],
          x_diffs = [\<lparr>e_key = ''host'', e_pt = Some ''pt-svc'', e_prod = Some ''prod-svc'',
                      e_type = ''changed''\<rparr>,
                     \<lparr>e_key = ''port'', e_pt = Some ''1'', e_prod = Some ''2'',
                      e_type = ''changed''\<rparr>]\<rparr> result_diffs"
  "compare_step filter_arg example_pt example_prod result_diffs ''only.properties''
     = AList.update ''only.properties''
         \<lparr>x_pt = Some [(''k'', ''2'')], x_prod = None,
          x_diffs = [\<lparr>e_key = ''k'', e_pt = Some ''2'', e_prod = None,
                      e_type = ''added_in_pt''\<rparr>]\<rparr> result_diffs"
  "compare_step filter_arg example_pt example_prod result_diffs ''same.properties'' = result_diffs"
  by (simp_all add: compare_step_def example_pt_def example_prod_def or_null_def
        example_envs_diffs)

lemma example_envs_stdout:
  "stdout (compare_envs example_envs [''v2'']) = [example_default]"
  "stdout (compare_envs example_envs [''v2'', ''false'']) = [example_unfiltered]"
  by (simp_all add: compare_envs_def main_env_def example_envs_access example_envs_body
        example_envs_names example_envs_steps Let_def example_default_def
        example_unfiltered_def)

subsection \<open>Invalid revision references\<close>

text \<open>
  C7. Let the tags and the output of \<^verbatim>\<open>git rev-list --all\<close> be given, and let a revision
  reference that is neither one of the tags nor one of the listed commits be passed as the
  old or the new revision of \<^verbatim>\<open>check_config.js\<close>, or as the revision of
  \<^verbatim>\<open>compare_envs.js\<close>. Then the run ends with exit status 1, prints nothing on standard
  output and makes no listing and no fetch. Its error stream holds a diagnostic: the
  message of the invalid reference (after the line that confirms the repository path, in
  \<^verbatim>\<open>compare_envs.js\<close>), or the usage message when an argument is the empty string, or the
  message of the failed check of the repository path in \<^verbatim>\<open>compare_envs.js\<close>.
\<close>

theorem invalid_reference_fatal:
  assumes "git_tags be = Inr tags" and "git_rev_list be = Inr commits"
    and "ref \<notin> set tags" and "ref \<notin> set (split_on (CHR 0x0A) commits)"
    and "ref = oldTag \<or> ref = newTag"
  shows "exit_code (check_config be (oldTag # newTag # rest)) = 1
         \<and> stdout (check_config be (oldTag # newTag # rest)) = []
         \<and> stderr (check_config be (oldTag # newTag # rest))
             \<in> {[Usage], [ErrorMessage (InvalidRef [oldTag, newTag])]}
         \<and> filter listing_or_fetch (calls (check_config be (oldTag # newTag # rest))) = []
         \<and> exit_code (compare_envs be (ref # rest')) = 1
         \<and> stdout (compare_envs be (ref # rest')) = []
         \<and> stderr (compare_envs be (ref # rest'))
             \<in> {[Usage], [RepoPathInvalid (repoPath be)],
                 [RepoPathValid (repoPath be), ErrorMessage (InvalidRef [ref])]}
         \<and> filter listing_or_fetch (calls (compare_envs be (ref # rest'))) = []"
proof -
  note m = main_body_invalid [OF assms]
  note e = env_body_invalid [OF assms(1-4)]
  have 1: "exit_code (check_config be (oldTag # newTag # rest)) = 1
         \<and> stdout (check_config be (oldTag # newTag # rest)) = []
         \<and> stderr (check_config be (oldTag # newTag # rest))
             \<in> {[Usage], [ErrorMessage (InvalidRef [oldTag, newTag])]}
         \<and> filter listing_or_fetch (calls (check_config be (oldTag # newTag # rest))) = []"
    by (simp add: check_config_def main_def m listing_or_fetch_def)
  have 2: "exit_code (compare_envs be (ref # rest')) = 1
         \<and> stdout (compare_envs be (ref # rest')) = []
         \<and> stderr (compare_envs be (ref # rest'))
             \<in> {[Usage], [RepoPathInvalid (repoPath be)],
                 [RepoPathValid (repoPath be), ErrorMessage (InvalidRef [ref])]}
         \<and> filter listing_or_fetch (calls (compare_envs be (ref # rest'))) = []"
    by (simp add: compare_envs_def main_env_def e listing_or_fetch_def)
  from 1 2 show ?thesis by blast
qed

text \<open>The theorem on the example repository, where \<^verbatim>\<open>v0\<close> is no tag and no commit.\<close>

theorem invalid_reference_fatal_witness:
  "exit_code (check_config example_repo [''v0'', ''v2'']) = 1
   \<and> stdout (check_config example_repo [''v0'', ''v2'']) = []
   \<and> stderr (check_config example_repo [''v0'', ''v2''])
       = [ErrorMessage (InvalidRef [''v0'', ''v2''])]
   \<and> calls (check_config example_repo [''v0'', ''v2'']) = [GitTags, GitRevList]
   \<and> exit_code (compare_envs example_repo [''v0'']) = 1
   \<and> stdout (compare_envs example_repo [''v0'']) = []
   \<and> stderr (compare_envs example_repo [''v0''])
       = [RepoPathValid ''/srv/cloud-config'', ErrorMessage (InvalidRef [''v0''])]"
proof -
  have t: "git_tags example_repo = Inr [''v1'', ''v2'']"
    "git_rev_list example_repo = Inr (unlines [''c0ffee''])"
    by (simp_all add: example_repo_def)
  have n: "''v0'' \<notin> set [''v1'', ''v2'']"
    "''v0'' \<notin> set (split_on (CHR 0x0A) (unlines [''c0ffee'']))"
    by (simp_all add: unlines_def)
  have c: "calls (check_config example_repo [''v0'', ''v2'']) = [GitTags, GitRevList]"
    by (simp add: check_config_def main_def main_body_invalid [OF t n])
  have a: "fs_access example_repo p" "repoPath example_repo = ''/srv/cloud-config''" for p
    by (simp_all add: example_repo_def)
  from invalid_reference_fatal [OF t n, of "''v0''" "''v2''" "[]" "[]"] c a
  show ?thesis
    by (auto simp: check_config_def main_def compare_envs_def main_env_def
          main_body_invalid [OF t n] env_body_invalid [OF t n])
qed

subsection \<open>The filter argument\<close>

text \<open>
  C9. \<^verbatim>\<open>compare_envs.js\<close> without a second argument runs as with the second argument
  \<^verbatim>\<open>true\<close>, and with any second argument other than \<^verbatim>\<open>true\<close>, such as \<^verbatim>\<open>false\<close> or the
  empty string, it runs as with \<^verbatim>\<open>false\<close>. In every printed report, the records of each
  file are those that \<^verbatim>\<open>computeDiffs\<close> returns for the two contents with suppression
  exactly when the second argument is absent or is \<^verbatim>\<open>true\<close>. Suppression is then applied
  and otherwise not: for a reported file and a key that both contents have, with different
  values whose normalizations are equal and not empty, the file has no record of the key
  if and only if the second argument is absent or is \<^verbatim>\<open>true\<close>.
\<close>

theorem filter_argument:
  "compare_envs be [tag] = compare_envs be [tag, ''true'']
   \<and> compare_envs be (tag # ''true'' # rest) = compare_envs be [tag, ''true'']
   \<and> (filter_arg \<noteq> ''true'' \<longrightarrow>
        compare_envs be (tag # filter_arg # rest) = compare_envs be [tag, ''false''])
   \<and> (stdout (compare_envs be (tag # args)) = [result] \<and> map_of result fileName = Some fd \<longrightarrow>
        x_diffs fd = computeDiffs_env (x_pt fd) (x_prod fd) (args = [] \<or> hd args = ''true''))
   \<and> (stdout (compare_envs be (tag # args)) = [result] \<and> map_of result fileName = Some fd
        \<and> value_of (x_pt fd) key = Some ptVal \<and> value_of (x_prod fd) key = Some prodVal
        \<and> ptVal \<noteq> prodVal
        \<and> normalizeValue (Some ptVal) True = normalizeValue (Some prodVal) False
        \<and> normalizeValue (Some ptVal) True \<noteq> []
      \<longrightarrow> (key \<notin> set (map e_key (x_diffs fd)) \<longleftrightarrow> args = [] \<or> hd args = ''true''))"
proof -
  have s: "filter_arg \<noteq> ''true'' \<Longrightarrow>
             compare_step filter_arg = compare_step ''false''" for filter_arg
    by (intro ext) (simp add: compare_step_def)
  have m: "filter_arg \<noteq> ''true'' \<Longrightarrow> main_env be tag filter_arg = main_env be tag ''false''"
    using s [of filter_arg] by (simp add: main_env_def Let_def split: sum.splits prod.splits)
  have d: "x_diffs fd = computeDiffs_env (x_pt fd) (x_prod fd) (args = [] \<or> hd args = ''true'')"
    if a: "stdout (compare_envs be (tag # args)) = [result]" and b: "map_of result fileName = Some fd"
  proof -
    from compare_envs_stdout_body [OF a] obtain pt_files prod_files
      where e: "fst (env_body be tag) = Inr (pt_files, prod_files)" by blast
    from cross_retention [OF a e, of fileName] b show ?thesis
      by (auto split: if_splits)
  qed
  have k: "key \<notin> set (map e_key (x_diffs fd)) \<longleftrightarrow> args = [] \<or> hd args = ''true''"
    if a: "stdout (compare_envs be (tag # args)) = [result]" and b: "map_of result fileName = Some fd"
      and v: "value_of (x_pt fd) key = Some ptVal" "value_of (x_prod fd) key = Some prodVal"
        "ptVal \<noteq> prodVal"
      and n: "normalizeValue (Some ptVal) True = normalizeValue (Some prodVal) False"
        "normalizeValue (Some ptVal) True \<noteq> []"
  proof -
    let ?flag = "args = [] \<or> hd args = ''true''"
    have u: "key \<in> set (keys_or_empty (x_pt fd))"
      using v(1) value_of_None_iff [of "x_pt fd" key] by auto
    have i: "shouldIgnore ?flag (Some ptVal) (Some prodVal) = ?flag"
      using n by (cases ?flag) (simp_all add: shouldIgnore_True shouldIgnore_False)
    have "key \<in> set (map e_key (computeDiffs_env (x_pt fd) (x_prod fd) ?flag)) \<longleftrightarrow> \<not> ?flag"
      unfolding keys_computeDiffs_env using u v i by (simp add: set_new_Set)
    then show ?thesis unfolding d [OF a b] by blast
  qed
  have 1: "compare_envs be [tag] = compare_envs be [tag, ''true'']"
    by (simp add: compare_envs_def)
  have 2: "compare_envs be (tag # ''true'' # rest) = compare_envs be [tag, ''true'']"
    by (simp add: compare_envs_def)
  have 3: "filter_arg \<noteq> ''true'' \<longrightarrow>
        compare_envs be (tag # filter_arg # rest) = compare_envs be [tag, ''false'']"
    using m by (simp add: compare_envs_def)
  have 4: "stdout (compare_envs be (tag # args)) = [result] \<and> map_of result fileName = Some fd
             \<longrightarrow> x_diffs fd
                   = computeDiffs_env (x_pt fd) (x_prod fd) (args = [] \<or> hd args = ''true'')"
    using d by blast
  have 5: "stdout (compare_envs be (tag # args)) = [result] \<and> map_of result fileName = Some fd
        \<and> value_of (x_pt fd) key = Some ptVal \<and> value_of (x_prod fd) key = Some prodVal
        \<and> ptVal \<noteq> prodVal
        \<and> normalizeValue (Some ptVal) True = normalizeValue (Some prodVal) False
        \<and> normalizeValue (Some ptVal) True \<noteq> []
      \<longrightarrow> (key \<notin> set (map e_key (x_diffs fd)) \<longleftrightarrow> args = [] \<or> hd args = ''true'')"
    using k by blast
  show ?thesis
    by (intro conjI) (rule 1 2 3 4 5)+
qed

text \<open>
  The theorem on \<open>example_envs\<close>. Without a second argument the record of \<^verbatim>\<open>host\<close> is
  suppressed: \<^verbatim>\<open>h.properties\<close> is not reported and \<^verbatim>\<open>m.properties\<close> is reported with the
  record of \<^verbatim>\<open>port\<close> alone. With \<^verbatim>\<open>false\<close> and with the empty string both files are
  reported with the record of \<^verbatim>\<open>host\<close>.
\<close>

theorem filter_argument_witness:
  "stdout (compare_envs example_envs [''v2'']) = [example_default]
   \<and> stdout (compare_envs example_envs [''v2'', ''true'']) = [example_default]
   \<and> stdout (compare_envs example_envs [''v2'', ''false'']) = [example_unfiltered]
   \<and> stdout (compare_envs example_envs [''v2'', []]) = [example_unfiltered]
   \<and> map_of example_default ''h.properties'' = None
   \<and> map (\<lambda>file. (fst file, map e_key (x_diffs (snd file)))) example_default
       = [(''m.properties'', [''port'']), (''only.properties'', [''k''])]
   \<and> map (\<lambda>file. (fst file, map e_key (x_diffs (snd file)))) example_unfiltered
       = [(''h.properties'', [''host'']), (''m.properties'', [''host'', ''port'']),
          (''only.properties'', [''k''])]
   \<and> ''host'' \<notin> set (map e_key (x_diffs
        \<lparr>x_pt = Some [(''host'', ''pt-svc''), (''port'', ''1'')],
         x_prod = Some [(''host'', ''prod-svc''), (''port'', ''2'')],
         x_diffs = [\<lparr>e_key = ''port'', e_pt = Some ''1'', e_prod = Some ''2'',
                     e_type = ''changed''\<rparr>]\<rparr>))"
proof -
  let ?fd = "\<lparr>x_pt = Some [(''host'', ''pt-svc''), (''port'', ''1'')],
         x_prod = Some [(''host'', ''prod-svc''), (''port'', ''2'')],
         x_diffs = [\<lparr>e_key = ''port'', e_pt = Some ''1'', e_prod = Some ''2'',
                     e_type = ''changed''\<rparr>]\<rparr>"
  have f: "map_of example_default ''m.properties'' = Some ?fd"
    by (simp add: example_default_def)
  have v: "value_of (x_pt ?fd) ''host'' = Some ''pt-svc''"
    "value_of (x_prod ?fd) ''host'' = Some ''prod-svc''"
    by (simp_all add: value_of_def)
  have n: "normalizeValue (Some ''pt-svc'') True = normalizeValue (Some ''prod-svc'') False"
    "normalizeValue (Some ''pt-svc'') True \<noteq> []"
    by (simp_all add: normalize_pt_svc normalize_prod_svc)
  note t = filter_argument
    [of example_envs "''v2''" "[]" "[]" "[]" example_default "''m.properties''" ?fd
        "''host''" "''pt-svc''" "''prod-svc''"]
  have a1: "compare_envs example_envs [''v2''] = compare_envs example_envs [''v2'', ''true'']"
    by (rule t [THEN conjunct1])
  have a3: "compare_envs example_envs [''v2'', []] = compare_envs example_envs [''v2'', ''false'']"
    using t [THEN conjunct2, THEN conjunct2, THEN conjunct1] by simp
  have p: "stdout (compare_envs example_envs [''v2'']) = [example_default]
        \<and> map_of example_default ''m.properties'' = Some ?fd
        \<and> value_of (x_pt ?fd) ''host'' = Some ''pt-svc''
        \<and> value_of (x_prod ?fd) ''host'' = Some ''prod-svc''
        \<and> ''pt-svc'' \<noteq> ''prod-svc''
        \<and> normalizeValue (Some ''pt-svc'') True = normalizeValue (Some ''prod-svc'') False
        \<and> normalizeValue (Some ''pt-svc'') True \<noteq> []"
    using example_envs_stdout(1) f v n by simp
  have a5: "''host'' \<notin> set (map e_key (x_diffs ?fd))"
    using t [THEN conjunct2, THEN conjunct2, THEN conjunct2, THEN conjunct2, THEN mp, OF p]
    by simp
  have d: "map_of example_default ''h.properties'' = None"
    "map (\<lambda>file. (fst file, map e_key (x_diffs (snd file)))) example_default
       = [(''m.properties'', [''port'']), (''only.properties'', [''k''])]"
    "map (\<lambda>file. (fst file, map e_key (x_diffs (snd file)))) example_unfiltered
       = [(''h.properties'', [''host'']), (''m.properties'', [''host'', ''port'']),
          (''only.properties'', [''k''])]"
    by (simp_all add: example_default_def example_unfiltered_def)
  from a1 a3 a5 d example_envs_stdout show ?thesis
    by (simp only: simp_thms)
qed

subsection \<open>Pruning of environments\<close>

text \<open>
  C6. In every report that \<^verbatim>\<open>check_config.js\<close> prints, no environment maps to an empty
  object, and no environment occurs twice. The last loop of \<^verbatim>\<open>main\<close> removes exactly the
  environments whose object is empty and leaves the others as they are.
\<close>

theorem no_empty_environment:
  "(stdout (check_config be argv) = [result] \<longrightarrow>
      map_of result env \<noteq> Some []
      \<and> distinct (map fst result)
      \<and> (\<forall>report. (env, report) \<in> set result \<longrightarrow> report \<noteq> []))
   \<and> map_of (prune_envs envs) env
       = (if map_of envs env = Some [] then None else map_of envs env)"
proof (intro conjI impI allI)
  assume a: "stdout (check_config be argv) = [result]"
  then obtain oldTag newTag where m: "fst (main_body be oldTag newTag) = Inr result"
    using check_config_stdout_args by blast
  from main_body_distinct [OF m] show "map_of result env \<noteq> Some []" by simp
  from main_body_distinct [OF m] show d: "distinct (map fst result)" by simp
  fix report assume "(env, report) \<in> set result"
  with d have "map_of result env = Some report" by simp
  with main_body_distinct [OF m, of env] show "report \<noteq> []" by auto
next
  show "map_of (prune_envs envs) env
       = (if map_of envs env = Some [] then None else map_of envs env)"
    by (rule map_of_prune_envs)
qed

text \<open>The theorem on the example repository: \<^verbatim>\<open>dev\<close> is an environment of \<^verbatim>\<open>v2\<close>, none
  of its files changed, and the report has no entry for it.\<close>

theorem no_empty_environment_witness:
  "stdout (check_config example_repo [''v1'', ''v2'']) = [example_report]
   \<and> ''dev'' \<in> set (envs_of example_repo [''config/dev/y.properties'',
          ''config/pt/a/x.properties'', ''config/pt/b/x.properties'', ''config/pt/z.properties''])
   \<and> map_of example_report ''dev'' = None
   \<and> distinct (map fst example_report)"
  using no_empty_environment [of example_repo "[''v1'', ''v2'']" example_report "''dev''"]
    example_stdout
  by (simp add: example_envs_of) (simp add: example_report_def)

subsection \<open>Files are enumerated at the new revision\<close>

text \<open>
  C8. Every listing that \<^verbatim>\<open>check_config.js\<close> requests is a listing at the new revision.
  Every file of the printed report is the base name of a \<^verbatim>\<open>.properties\<close> path that the
  listing of its environment at the new revision contains, the environment being one of
  those found in the listing of \<^verbatim>\<open>config\<close> at the new revision. So a file that only the old
  revision has is not in the report.
\<close>

theorem new_revision_only:
  "(GitLsTree tag dir \<in> set (calls (check_config be (oldTag # newTag # rest))) \<longrightarrow> tag = newTag)
   \<and> (stdout (check_config be (oldTag # newTag # rest)) = [result]
        \<and> report_lookup result env fileName = Some fd \<longrightarrow>
      (\<exists>allFiles listed fullPath.
          fst (listFiles be newTag ''config'') = Inr allFiles
          \<and> env \<in> set (envs_of be allFiles)
          \<and> fst (listFiles be newTag (''config'' @ ''/'' @ env)) = Inr listed
          \<and> fullPath \<in> set listed
          \<and> suffix ''.properties'' fullPath
          \<and> path_basename be fullPath = fileName))"
proof (intro conjI impI)
  assume "GitLsTree tag dir \<in> set (calls (check_config be (oldTag # newTag # rest)))"
  from check_config_calls [OF this] show "tag = newTag" by (simp add: lists_at_def)
next
  assume a: "stdout (check_config be (oldTag # newTag # rest)) = [result]
        \<and> report_lookup result env fileName = Some fd"
  then have m: "fst (main_body be oldTag newTag) = Inr result"
    using check_config_stdout by blast
  from a have r: "report_lookup result env fileName = Some fd" by simp
  obtain allFiles where al: "fst (listFiles be newTag ''config'') = Inr allFiles"
  proof (cases "fst (listFiles be newTag ''config'')")
    case (Inl err)
    with main_body_Inr [OF m] have "result = []" by simp
    with r show ?thesis by (simp add: report_lookup_def)
  next
    case (Inr x)
    then show ?thesis using that by blast
  qed
  from report_lookup_result [OF m al, of env fileName] r
  have e: "env \<in> set (envs_of be allFiles)"
    and f: "map_of (env_report_of be oldTag newTag env) fileName = Some fd"
    by (simp_all split: if_splits)
  from f have "fileName \<in> fst ` set (env_report_of be oldTag newTag env)"
    by (metis map_of_SomeD fst_conv image_eqI)
  then obtain fullPath where p: "fullPath \<in> set (env_files be newTag env)"
    "path_basename be fullPath = fileName"
    unfolding env_report_of_def keys_foldl_update by auto
  from main_body_Inr [OF m] al e obtain listed where
    l: "fst (listFiles be newTag (''config'' @ ''/'' @ env)) = Inr listed"
    by auto
  with p(1) have "fullPath \<in> set listed" "suffix ''.properties'' fullPath"
    by (simp_all add: env_files_def)
  with al e l p(2) show "\<exists>allFiles listed fullPath.
          fst (listFiles be newTag ''config'') = Inr allFiles
          \<and> env \<in> set (envs_of be allFiles)
          \<and> fst (listFiles be newTag (''config'' @ ''/'' @ env)) = Inr listed
          \<and> fullPath \<in> set listed
          \<and> suffix ''.properties'' fullPath
          \<and> path_basename be fullPath = fileName"
    by blast
qed

text \<open>The theorem on the example repository, for the file \<^verbatim>\<open>z.properties\<close> of pt.\<close>

theorem new_revision_only_witness:
  "GitLsTree ''v2'' ''config/pt'' \<in> set (calls (check_config example_repo [''v1'', ''v2'']))
   \<and> stdout (check_config example_repo [''v1'', ''v2'']) = [example_report]
   \<and> report_lookup example_report ''pt'' ''z.properties''
       = Some \<lparr>f_old = None, f_new = Some [(''k'', ''1'')],
               f_diffs = [\<lparr>d_key = ''k'', d_old = None, d_new = Some ''1'', d_type = ''added''\<rparr>]\<rparr>
   \<and> fst (listFiles example_repo ''v2'' ''config/pt'')
       = Inr [''config/pt/a/x.properties'', ''config/pt/b/x.properties'', ''config/pt/z.properties'']
   \<and> path_basename example_repo ''config/pt/z.properties'' = ''z.properties''"
proof -
  have c: "GitLsTree ''v2'' ''config/pt'' \<in> set (calls (check_config example_repo [''v1'', ''v2'']))"
    by (simp add: example_run)
  have l: "report_lookup example_report ''pt'' ''z.properties''
       = Some \<lparr>f_old = None, f_new = Some [(''k'', ''1'')],
               f_diffs = [\<lparr>d_key = ''k'', d_old = None, d_new = Some ''1'', d_type = ''added''\<rparr>]\<rparr>"
    by (simp add: report_lookup_def example_report_def)
  from new_revision_only
    [of "''v2''" "''config/pt''" example_repo "''v1''" "''v2''" "[]" example_report "''pt''"
        "''z.properties''"
        "\<lparr>f_old = None, f_new = Some [(''k'', ''1'')],
          f_diffs = [\<lparr>d_key = ''k'', d_old = None, d_new = Some ''1'', d_type = ''added''\<rparr>]\<rparr>"]
    c l example_stdout
  show ?thesis by (simp add: example_list_pt example_basenames)
qed

subsection \<open>Retention of files\<close>

text \<open>
  C5, as stated, fails for \<^verbatim>\<open>check_config.js\<close> in one case: a compared file that has a
  change record or an absent side, and is followed in the listing of its environment by a
  file with the same base name that has one too. The report is keyed by base name, and the
  entry of the later file replaces the entry of the earlier one. In the example repository
  the file \<^verbatim>\<open>config/pt/a/x.properties\<close> is compared and has one change record, and its entry
  is not in the report.
\<close>

theorem file_retention_counterexample:
  "stdout (check_config example_repo [''v1'', ''v2'']) = [example_report]
   \<and> fst (listFiles example_repo ''v2'' ''config/pt'')
       = Inr [''config/pt/a/x.properties'', ''config/pt/b/x.properties'', ''config/pt/z.properties'']
   \<and> fst (getFileContent example_repo ''v1'' ''config/pt/a/x.properties'') = Inr (Some [(''k'', ''1'')])
   \<and> fst (getFileContent example_repo ''v2'' ''config/pt/a/x.properties'') = Inr (Some [(''k'', ''2'')])
   \<and> computeDiffs (Some [(''k'', ''1'')]) (Some [(''k'', ''2'')])
       = [\<lparr>d_key = ''k'', d_old = Some ''1'', d_new = Some ''2'', d_type = ''changed''\<rparr>]
   \<and> path_basename example_repo ''config/pt/a/x.properties'' = ''x.properties''
   \<and> report_lookup example_report ''pt'' ''x.properties''
       \<noteq> Some \<lparr>f_old = Some [(''k'', ''1'')], f_new = Some [(''k'', ''2'')],
               f_diffs = computeDiffs (Some [(''k'', ''1'')]) (Some [(''k'', ''2'')])\<rparr>
   \<and> \<lparr>f_old = Some [(''k'', ''1'')], f_new = Some [(''k'', ''2'')],
       f_diffs = computeDiffs (Some [(''k'', ''1'')]) (Some [(''k'', ''2'')])\<rparr>
       \<notin> snd ` set (concat (map snd example_report))"
  by (simp add: example_stdout example_list_pt example_show example_diffs example_basenames
        report_lookup_def example_report_def)

text \<open>
  C5, amended. In a run of \<^verbatim>\<open>check_config.js\<close> that prints a report, for every compared
  file: if the report has the entry of the file under its base name, then the file has at
  least one change record or one of its two contents is absent, so that a file without
  records and with both contents is pruned; and if the file has at least one change record
  or an absent content, then the report has its entry, unless a file listed after it in
  the same environment has the same base name and also has a change record or an absent
  content. Under each base name the report holds the entry of the last such file. In a run
  of \<^verbatim>\<open>compare_envs.js\<close> that prints a report, for every file name, the report has the
  entry of the name if and only if the name is a file of pt or of prod and either some
  record survives suppression or one of the two contents is absent. In both, the entry
  holds the two contents and the records.
\<close>

theorem file_retention:
  "(stdout (check_config be (oldTag # newTag # rest)) = [result]
      \<and> fst (listFiles be newTag ''config'') = Inr allFiles
      \<and> env \<in> set (envs_of be allFiles)
      \<and> fst (listFiles be newTag (''config'' @ ''/'' @ env)) = Inr listed
      \<and> filter (\<lambda>f. suffix ''.properties'' f) listed = before @ fullPath # after
    \<longrightarrow> (\<exists>oldContent newContent.
          fst (getFileContent be oldTag fullPath) = Inr oldContent
          \<and> fst (getFileContent be newTag fullPath) = Inr newContent
          \<and> file_diff_of be oldTag newTag fullPath
              = \<lparr>f_old = oldContent, f_new = newContent,
                 f_diffs = computeDiffs oldContent newContent\<rparr>
          \<and> (report_lookup result env (path_basename be fullPath)
                = Some \<lparr>f_old = oldContent, f_new = newContent,
                         f_diffs = computeDiffs oldContent newContent\<rparr>
              \<longrightarrow> computeDiffs oldContent newContent \<noteq> [] \<or> oldContent = None
                    \<or> newContent = None)
          \<and> ((computeDiffs oldContent newContent \<noteq> [] \<or> oldContent = None \<or> newContent = None)
              \<and> (\<forall>other\<in>set after. path_basename be other = path_basename be fullPath
                    \<longrightarrow> \<not> retained (file_diff_of be oldTag newTag other))
              \<longrightarrow> report_lookup result env (path_basename be fullPath)
                    = Some \<lparr>f_old = oldContent, f_new = newContent,
                             f_diffs = computeDiffs oldContent newContent\<rparr>))
        \<and> report_lookup result env fileName
            = (case filter (\<lambda>q. path_basename be q = fileName
                                  \<and> retained (file_diff_of be oldTag newTag q))
                      (rev (before @ fullPath # after)) of
                 [] \<Rightarrow> None
               | q # _ \<Rightarrow> Some (file_diff_of be oldTag newTag q)))
   \<and> (stdout (compare_envs be' (tag # args)) = [cross_result]
      \<and> fst (env_body be' tag) = Inr (pt_files, prod_files)
    \<longrightarrow> map_of cross_result name
         = (if name \<in> set (map fst pt_files) \<union> set (map fst prod_files)
               \<and> (computeDiffs_env (or_null (map_of pt_files name))
                     (or_null (map_of prod_files name)) (args = [] \<or> hd args = ''true'') \<noteq> []
                  \<or> or_null (map_of pt_files name) = None
                  \<or> or_null (map_of prod_files name) = None)
            then Some \<lparr>x_pt = or_null (map_of pt_files name),
                       x_prod = or_null (map_of prod_files name),
                       x_diffs = computeDiffs_env (or_null (map_of pt_files name))
                                   (or_null (map_of prod_files name))
                                   (args = [] \<or> hd args = ''true'')\<rparr>
            else None))"
proof (intro conjI impI)
  assume a: "stdout (compare_envs be' (tag # args)) = [cross_result]
      \<and> fst (env_body be' tag) = Inr (pt_files, prod_files)"
  then show "map_of cross_result name
         = (if name \<in> set (map fst pt_files) \<union> set (map fst prod_files)
               \<and> (computeDiffs_env (or_null (map_of pt_files name))
                     (or_null (map_of prod_files name)) (args = [] \<or> hd args = ''true'') \<noteq> []
                  \<or> or_null (map_of pt_files name) = None
                  \<or> or_null (map_of prod_files name) = None)
            then Some \<lparr>x_pt = or_null (map_of pt_files name),
                       x_prod = or_null (map_of prod_files name),
                       x_diffs = computeDiffs_env (or_null (map_of pt_files name))
                                   (or_null (map_of prod_files name))
                                   (args = [] \<or> hd args = ''true'')\<rparr>
            else None)"
    using cross_retention [of be' tag args cross_result pt_files prod_files name] by blast
next
  assume a: "stdout (check_config be (oldTag # newTag # rest)) = [result]
      \<and> fst (listFiles be newTag ''config'') = Inr allFiles
      \<and> env \<in> set (envs_of be allFiles)
      \<and> fst (listFiles be newTag (''config'' @ ''/'' @ env)) = Inr listed
      \<and> filter (\<lambda>f. suffix ''.properties'' f) listed = before @ fullPath # after"
  then have h: "stdout (check_config be (oldTag # newTag # rest)) = [result]"
    "fst (listFiles be newTag ''config'') = Inr allFiles"
    "env \<in> set (envs_of be allFiles)"
    "fst (listFiles be newTag (''config'' @ ''/'' @ env)) = Inr listed"
    and f: "filter (\<lambda>f. suffix ''.properties'' f) listed = before @ fullPath # after"
    by simp_all
  let ?old = "fetched be oldTag fullPath" and ?new = "fetched be newTag fullPath"
  let ?fd = "\<lparr>f_old = ?old, f_new = ?new, f_diffs = computeDiffs ?old ?new\<rparr>"
  have e: "file_diff_of be oldTag newTag fullPath = ?fd"
    by (simp add: file_diff_of_def)
  have r: "retained ?fd \<longleftrightarrow> computeDiffs ?old ?new \<noteq> [] \<or> ?old = None \<or> ?new = None"
    by (simp add: retained_def)
  have g: "fst (getFileContent be oldTag fullPath) = Inr ?old"
    "fst (getFileContent be newTag fullPath) = Inr ?new"
    using temporal_last_retained(2) [OF h] f by simp_all
  have o: "report_lookup result env (path_basename be fullPath) = Some ?fd
             \<longrightarrow> computeDiffs ?old ?new \<noteq> [] \<or> ?old = None \<or> ?new = None"
  proof
    assume "report_lookup result env (path_basename be fullPath) = Some ?fd"
    from temporal_only_if [OF h this] have "retained ?fd" .
    then show "computeDiffs ?old ?new \<noteq> [] \<or> ?old = None \<or> ?new = None"
      by (simp add: retained_def)
  qed
  have i: "(computeDiffs ?old ?new \<noteq> [] \<or> ?old = None \<or> ?new = None)
              \<and> (\<forall>other\<in>set after. path_basename be other = path_basename be fullPath
                    \<longrightarrow> \<not> retained (file_diff_of be oldTag newTag other))
              \<longrightarrow> report_lookup result env (path_basename be fullPath) = Some ?fd"
    using temporal_if [OF h f] r e by simp
  from g e o i
  show "\<exists>oldContent newContent.
          fst (getFileContent be oldTag fullPath) = Inr oldContent
          \<and> fst (getFileContent be newTag fullPath) = Inr newContent
          \<and> file_diff_of be oldTag newTag fullPath
              = \<lparr>f_old = oldContent, f_new = newContent,
                 f_diffs = computeDiffs oldContent newContent\<rparr>
          \<and> (report_lookup result env (path_basename be fullPath)
                = Some \<lparr>f_old = oldContent, f_new = newContent,
                         f_diffs = computeDiffs oldContent newContent\<rparr>
              \<longrightarrow> computeDiffs oldContent newContent \<noteq> [] \<or> oldContent = None
                    \<or> newContent = None)
          \<and> ((computeDiffs oldContent newContent \<noteq> [] \<or> oldContent = None \<or> newContent = None)
              \<and> (\<forall>other\<in>set after. path_basename be other = path_basename be fullPath
                    \<longrightarrow> \<not> retained (file_diff_of be oldTag newTag other))
              \<longrightarrow> report_lookup result env (path_basename be fullPath)
                    = Some \<lparr>f_old = oldContent, f_new = newContent,
                             f_diffs = computeDiffs oldContent newContent\<rparr>)"
    by (intro exI [of _ ?old] exI [of _ ?new] conjI)
  show "report_lookup result env fileName
            = (case filter (\<lambda>q. path_basename be q = fileName
                                  \<and> retained (file_diff_of be oldTag newTag q))
                      (rev (before @ fullPath # after)) of
                 [] \<Rightarrow> None
               | q # _ \<Rightarrow> Some (file_diff_of be oldTag newTag q))"
    using temporal_last_retained(1) [OF h, of fileName] by (simp only: f)
qed

text \<open>
  The theorem on the example repositories. Of the two files named \<^verbatim>\<open>x.properties\<close> the
  later one, \<^verbatim>\<open>config/pt/b/x.properties\<close>, is followed by no retained file of its name, and
  the report has its entry. Of pt and prod, \<^verbatim>\<open>h.properties\<close>, whose only difference is
  suppressed, has no entry, and \<^verbatim>\<open>only.properties\<close>, which prod lacks, has one.
\<close>

theorem file_retention_witness:
  "stdout (check_config example_repo [''v1'', ''v2'']) = [example_report]
   \<and> filter (\<lambda>f. suffix ''.properties'' f)
        [''config/pt/a/x.properties'', ''config/pt/b/x.properties'', ''config/pt/z.properties'']
       = [''config/pt/a/x.properties''] @ ''config/pt/b/x.properties'' # [''config/pt/z.properties'']
   \<and> report_lookup example_report ''pt'' ''x.properties''
       = Some \<lparr>f_old = Some [(''k'', ''1'')], f_new = Some [(''k'', ''3'')],
               f_diffs = [\<lparr>d_key = ''k'', d_old = Some ''1'', d_new = Some ''3'',
                           d_type = ''changed''\<rparr>]\<rparr>
   \<and> stdout (compare_envs example_envs [''v2'']) = [example_default]
   \<and> map_of example_default ''h.properties'' = None
   \<and> map_of example_default ''only.properties''
       = Some \<lparr>x_pt = Some [(''k'', ''2'')], x_prod = None,
               x_diffs = [\<lparr>e_key = ''k'', e_pt = Some ''2'', e_prod = None,
                           e_type = ''added_in_pt''\<rparr>]\<rparr>"
proof -
  let ?listed = "[''config/pt/a/x.properties'', ''config/pt/b/x.properties'',
                  ''config/pt/z.properties'']"
  have s: "filter (\<lambda>f. suffix ''.properties'' f) ?listed
       = [''config/pt/a/x.properties''] @ ''config/pt/b/x.properties'' # [''config/pt/z.properties'']"
    by (simp add: suffix_to_prefix)
  have l: "fst (listFiles example_repo ''v2'' ''config'')
             = Inr [''config/dev/y.properties'', ''config/pt/a/x.properties'',
                    ''config/pt/b/x.properties'', ''config/pt/z.properties'']"
    "fst (listFiles example_repo ''v2'' (''config'' @ ''/'' @ ''pt'')) = Inr ?listed"
    by (simp_all add: example_list_config example_list_pt)
  have e: "''pt'' \<in> set (envs_of example_repo [''config/dev/y.properties'',
             ''config/pt/a/x.properties'', ''config/pt/b/x.properties'', ''config/pt/z.properties''])"
    by (simp add: example_envs_of)
  note t = file_retention
    [of example_repo "''v1''" "''v2''" "[]" example_report
        "[''config/dev/y.properties'', ''config/pt/a/x.properties'',
          ''config/pt/b/x.properties'', ''config/pt/z.properties'']"
        "''pt''" ?listed "[''config/pt/a/x.properties'']" "''config/pt/b/x.properties''"
        "[''config/pt/z.properties'']" "''x.properties''"
        example_envs "''v2''" "[]" example_default example_pt example_prod "''h.properties''"]
  have p: "stdout (check_config example_repo [''v1'', ''v2'']) = [example_report]
      \<and> fst (listFiles example_repo ''v2'' ''config'')
          = Inr [''config/dev/y.properties'', ''config/pt/a/x.properties'',
                 ''config/pt/b/x.properties'', ''config/pt/z.properties'']
      \<and> ''pt'' \<in> set (envs_of example_repo [''config/dev/y.properties'',
             ''config/pt/a/x.properties'', ''config/pt/b/x.properties'', ''config/pt/z.properties''])
      \<and> fst (listFiles example_repo ''v2'' (''config'' @ ''/'' @ ''pt'')) = Inr ?listed
      \<and> filter (\<lambda>f. suffix ''.properties'' f) ?listed
          = [''config/pt/a/x.properties''] @ ''config/pt/b/x.properties'' # [''config/pt/z.properties'']"
    using example_stdout l e s by (intro conjI)
  from t [THEN conjunct1, THEN mp, OF p, THEN conjunct1]
  obtain oldContent newContent where
    c: "fst (getFileContent example_repo ''v1'' ''config/pt/b/x.properties'') = Inr oldContent"
       "fst (getFileContent example_repo ''v2'' ''config/pt/b/x.properties'') = Inr newContent"
    and i: "(computeDiffs oldContent newContent \<noteq> [] \<or> oldContent = None \<or> newContent = None)
              \<and> (\<forall>other\<in>set [''config/pt/z.properties''].
                    path_basename example_repo other
                      = path_basename example_repo ''config/pt/b/x.properties''
                    \<longrightarrow> \<not> retained (file_diff_of example_repo ''v1'' ''v2'' other))
              \<longrightarrow> report_lookup example_report ''pt''
                      (path_basename example_repo ''config/pt/b/x.properties'')
                    = Some \<lparr>f_old = oldContent, f_new = newContent,
                             f_diffs = computeDiffs oldContent newContent\<rparr>"
    by blast
  from c have oc: "oldContent = Some [(''k'', ''1'')]" "newContent = Some [(''k'', ''3'')]"
    by (simp_all add: example_show)
  from i have x: "report_lookup example_report ''pt'' ''x.properties''
       = Some \<lparr>f_old = Some [(''k'', ''1'')], f_new = Some [(''k'', ''3'')],
               f_diffs = [\<lparr>d_key = ''k'', d_old = Some ''1'', d_new = Some ''3'',
                           d_type = ''changed''\<rparr>]\<rparr>"
    unfolding oc by (simp add: example_diffs example_basenames)
  have q: "stdout (compare_envs example_envs [''v2'']) = [example_default]
      \<and> fst (env_body example_envs ''v2'') = Inr (example_pt, example_prod)"
    using example_envs_stdout(1) example_envs_body by (intro conjI)
  from t [THEN conjunct2, THEN mp, OF q]
  have h: "map_of example_default ''h.properties'' = None"
    by (simp add: example_pt_def example_prod_def or_null_def example_envs_diffs)
  have o: "map_of example_default ''only.properties''
       = Some \<lparr>x_pt = Some [(''k'', ''2'')], x_prod = None,
               x_diffs = [\<lparr>e_key = ''k'', e_pt = Some ''2'', e_prod = None,
                           e_type = ''added_in_pt''\<rparr>]\<rparr>"
    by (simp add: example_default_def)
  from example_stdout s x example_envs_stdout(1) h o show ?thesis
    by (intro conjI)
qed

end
